theory Spec2Isabelle
  imports Main "HOL-Library.Word" "HOL-Library.Signed_Division"
begin

unbundle bit_operations_syntax

section \<open>Machine integers of the C sources\<close>

text \<open>
  The sources are C on GLib. \<open>gint\<close> is a 32-bit and \<open>glong\<close> (on LP64) a 64-bit
  two's-complement integer. Addition, subtraction and multiplication on words wrap
  around; C leaves signed overflow undefined, so wherever a theorem below depends on a
  result that has wrapped, it says so. Comparisons are the signed ones (\<open><s\<close>,
  \<open>\<le>s\<close>). A conversion from \<open>glong\<close> to \<open>gint\<close> keeps the low 32 bits
  (implementation-defined in ISO C, reduction modulo \<open>2^32\<close> for GCC and Clang), a
  conversion from \<open>gint\<close> to \<open>glong\<close> extends the sign.
\<close>

type_synonym gint = "32 word"
type_synonym glong = "64 word"

text \<open>C's \<open>/\<close> on signed integers: the quotient is truncated towards zero.\<close>

definition c_div :: "'a::len word \<Rightarrow> 'a word \<Rightarrow> 'a word" where
  "c_div a b = word_of_int (sint a sdiv sint b)"

text \<open>GLib's macro \<open>MIN(a, b)\<close>, that is \<open>((a) < (b)) ? (a) : (b)\<close>, on signed operands (the name \<open>MIN\<close> is HOL syntax).\<close>

definition c_MIN :: "'a::len word \<Rightarrow> 'a word \<Rightarrow> 'a word" where
  "c_MIN a b = (if a <s b then a else b)"

definition glong_of_gint :: "gint \<Rightarrow> glong" where
  "glong_of_gint x = scast x"

definition gint_of_glong :: "glong \<Rightarrow> gint" where
  "gint_of_glong x = ucast x"

definition G_USEC_PER_SEC :: glong where
  "G_USEC_PER_SEC = 1000000"

section \<open>The token bucket of \<open>lib/filter/filter-throttle.c\<close>\<close>

record GTimeVal =
  tv_sec :: glong
  tv_usec :: glong

text \<open>
  Modelled from the spec: \<open>g_time_val_diff\<close> (declared in \<open>timeutils/misc.h\<close>, its body
  is not among the sources) gives the elapsed microseconds between two instants.
\<close>

definition g_time_val_diff :: "GTimeVal \<Rightarrow> GTimeVal \<Rightarrow> glong" where
  "g_time_val_diff t1 t2 =
     (tv_sec t1 - tv_sec t2) * G_USEC_PER_SEC + (tv_usec t1 - tv_usec t2)"

text \<open>\<open>struct _ThrottleRateLimit\<close>; the mutex carries no data.\<close>

record ThrottleRateLimit =
  tokens :: gint
  rate :: gint
  last_check :: GTimeVal

text \<open>
  \<open>g_get_current_time\<close> reads the wall clock; every function that calls it takes the
  value it reads as the argument \<open>now\<close>.
\<close>

definition throttle_ratelimit_new :: "gint \<Rightarrow> GTimeVal \<Rightarrow> ThrottleRateLimit" where
  "throttle_ratelimit_new r now = \<lparr>tokens = r, rate = r, last_check = now\<rparr>"

definition num_new_tokens :: "GTimeVal \<Rightarrow> ThrottleRateLimit \<Rightarrow> gint" where
  "num_new_tokens now self =
     (let usec_since_last_fill = g_time_val_diff now (last_check self)
      in gint_of_glong
           (c_div (usec_since_last_fill * glong_of_gint (rate self)) G_USEC_PER_SEC))"

definition throttle_ratelimit_add_new_tokens ::
  "GTimeVal \<Rightarrow> ThrottleRateLimit \<Rightarrow> ThrottleRateLimit" where
  "throttle_ratelimit_add_new_tokens now self =
     (let n = num_new_tokens now self
      in if n \<noteq> 0
         then self\<lparr>tokens := c_MIN (rate self) (tokens self + n), last_check := now\<rparr>
         else self)"

definition throttle_ratelimit_try_consume_tokens ::
  "ThrottleRateLimit \<Rightarrow> gint \<Rightarrow> ThrottleRateLimit \<times> bool" where
  "throttle_ratelimit_try_consume_tokens self num_tokens =
     (if num_tokens \<le>s tokens self
      then (self\<lparr>tokens := tokens self - num_tokens\<rparr>, True)
      else (self, False))"

definition throttle_ratelimit_process_new_logs ::
  "GTimeVal \<Rightarrow> ThrottleRateLimit \<Rightarrow> gint \<Rightarrow> ThrottleRateLimit \<times> bool" where
  "throttle_ratelimit_process_new_logs now self num_new_logs =
     throttle_ratelimit_try_consume_tokens
       (throttle_ratelimit_add_new_tokens now self) num_new_logs"

text \<open>
  A sequence of calls of \<open>throttle_ratelimit_process_new_logs\<close> on one bucket, each
  with the clock value it reads and the size of its batch; the verdicts are collected
  in order.
\<close>

fun process_requests ::
  "ThrottleRateLimit \<Rightarrow> (GTimeVal \<times> gint) list \<Rightarrow> ThrottleRateLimit \<times> bool list" where
  "process_requests self [] = (self, [])"
| "process_requests self ((now, n) # reqs) =
     (let (self', ok) = throttle_ratelimit_process_new_logs now self n;
          (self'', oks) = process_requests self' reqs
      in (self'', ok # oks))"

section \<open>The throttle filter of \<open>lib/filter/filter-throttle.c\<close>\<close>

text \<open>
  A log message is seen through \<open>log_msg_get_value\<close> only: a name-value handle gives
  the bytes stored under it. Handle \<open>0\<close> is no handle.
\<close>

type_synonym NVHandle = "32 word"
type_synonym LogMessage = "NVHandle \<rightharpoonup> string"

text \<open>
  Modelled from the spec: \<open>log_msg_get_value\<close> (message representation, not among the
  sources) extracts the byte string stored for a field; a field that is absent gives the
  empty string.
\<close>

definition log_msg_get_value :: "LogMessage \<Rightarrow> NVHandle \<Rightarrow> string" where
  "log_msg_get_value msg handle = (case msg handle of None \<Rightarrow> [] | Some v \<Rightarrow> v)"

text \<open>
  The table is created with \<open>g_str_hash\<close> and \<open>g_str_equal\<close>, and a new key is copied
  with \<open>g_strdup\<close>: all three read a \<open>gchar *\<close> buffer up to its first NUL byte.
\<close>

definition g_str :: "string \<Rightarrow> string" where
  "g_str buf = takeWhile (\<lambda>c. c \<noteq> CHR 0x00) buf"

text \<open>
  \<open>struct _FilterThrottle\<close>. Its field \<open>rate\<close> is \<open>filter_rate\<close> here, since record
  fields share one name space. The hash table \<open>rate_limits\<close> owns its buckets, each
  reachable through its key only, so it is a map from keys to bucket states.
\<close>

record FilterThrottle =
  key_handle :: NVHandle
  filter_rate :: gint
  rate_limits :: "string \<rightharpoonup> ThrottleRateLimit"

text \<open>
  Lines 121 to 133 of \<open>filter_throttle_eval\<close>: the buffer \<open>key\<close>. The batch is the list
  \<open>msgs\<close> and \<open>num_msg\<close> its length; \<open>msgs[num_msg-1]\<close> on an empty batch reads out of
  bounds, which is \<open>None\<close>.
\<close>

definition filter_throttle_key :: "FilterThrottle \<Rightarrow> LogMessage list \<Rightarrow> string option" where
  "filter_throttle_key self msgs =
     (if key_handle self \<noteq> 0
      then (if msgs = [] then None
            else Some (log_msg_get_value (msgs ! (length msgs - 1)) (key_handle self)))
      else Some [])"

text \<open>
  \<open>filter_throttle_eval\<close>. \<open>now_new\<close> is the clock as \<open>throttle_ratelimit_new\<close> reads it
  (used when the bucket is created), \<open>now_fill\<close> as \<open>throttle_ratelimit_add_new_tokens\<close>
  reads it afterwards.
\<close>

definition filter_throttle_eval ::
  "FilterThrottle \<Rightarrow> LogMessage list \<Rightarrow> GTimeVal \<Rightarrow> GTimeVal \<Rightarrow> (FilterThrottle \<times> bool) option" where
  "filter_throttle_eval self msgs now_new now_fill =
     (case filter_throttle_key self msgs of
        None \<Rightarrow> None
      | Some key \<Rightarrow>
          (let rl = (case rate_limits self (g_str key) of
                       Some rl \<Rightarrow> rl
                     | None \<Rightarrow> throttle_ratelimit_new (filter_rate self) now_new);
               (rl', within_ratelimit) =
                  throttle_ratelimit_process_new_logs now_fill rl (word_of_nat (length msgs))
           in Some (self\<lparr>rate_limits := (rate_limits self)(g_str key \<mapsto> rl')\<rparr>,
                    within_ratelimit)))"

text \<open>\<open>filter_throttle_init\<close>: a rate that is not positive is refused.\<close>

definition filter_throttle_init :: "FilterThrottle \<Rightarrow> bool" where
  "filter_throttle_init self = (\<not> filter_rate self \<le>s 0)"

text \<open>\<open>filter_throttle_new\<close>, \<open>filter_throttle_set_key\<close> and \<open>filter_throttle_set_rate\<close>.\<close>

definition filter_throttle_new :: FilterThrottle where
  "filter_throttle_new = \<lparr>key_handle = 0, filter_rate = 0, rate_limits = Map.empty\<rparr>"

definition filter_throttle_set_key :: "FilterThrottle \<Rightarrow> NVHandle \<Rightarrow> FilterThrottle" where
  "filter_throttle_set_key self h = self\<lparr>key_handle := h\<rparr>"

definition filter_throttle_set_rate :: "FilterThrottle \<Rightarrow> gint \<Rightarrow> FilterThrottle" where
  "filter_throttle_set_rate self r = self\<lparr>filter_rate := r\<rparr>"

section \<open>The statistics module, \<open>lib/stats.c\<close>\<close>

text \<open>
  Modelled from the spec: \<open>StatsOptions\<close> (declared in \<open>stats.h\<close>, not among the
  sources) has the fields \<open>level\<close>, \<open>log_freq\<close> and \<open>lifetime\<close>; the code reads each
  of them as a \<open>gint\<close>.
\<close>

record StatsOptions =
  level :: gint
  log_freq :: gint
  lifetime :: gint

definition stats_options_defaults :: "StatsOptions \<Rightarrow> StatsOptions" where
  "stats_options_defaults options = options\<lparr>level := 0, log_freq := 600, lifetime := 600\<rparr>"

text \<open>
  The counter types, in the order of the table \<open>tag_names\<close> of \<open>stats_get_type_name\<close>;
  \<open>sc_type_index\<close> is the value of the enumerator.
\<close>

datatype StatsCounterType =
  SC_TYPE_DROPPED | SC_TYPE_PROCESSED | SC_TYPE_STORED | SC_TYPE_SUPPRESSED | SC_TYPE_STAMP

fun sc_type_index :: "StatsCounterType \<Rightarrow> nat" where
  "sc_type_index SC_TYPE_DROPPED = 0"
| "sc_type_index SC_TYPE_PROCESSED = 1"
| "sc_type_index SC_TYPE_STORED = 2"
| "sc_type_index SC_TYPE_SUPPRESSED = 3"
| "sc_type_index SC_TYPE_STAMP = 4"

fun stats_get_type_name :: "StatsCounterType \<Rightarrow> string" where
  "stats_get_type_name SC_TYPE_DROPPED = ''dropped''"
| "stats_get_type_name SC_TYPE_PROCESSED = ''processed''"
| "stats_get_type_name SC_TYPE_STORED = ''stored''"
| "stats_get_type_name SC_TYPE_SUPPRESSED = ''suppressed''"
| "stats_get_type_name SC_TYPE_STAMP = ''stamp''"

text \<open>
  Modelled from the spec: \<open>StatsCluster\<close> (declared in \<open>stats-registry.h\<close>, not among
  the sources), with the fields that \<open>lib/stats.c\<close> reads: the counter values by type,
  the reference count, the liveness mask and the flag \<open>dynamic\<close>. Values of type
  \<open>time_t\<close>, the counter values and the reference count are mathematical integers:
  Unix times in seconds are far from the limits of \<open>time_t\<close>.
\<close>

record StatsCluster =
  counters :: "StatsCounterType \<Rightarrow> int"
  ref_cnt :: int
  live_mask :: int
  dynamic :: bool

definition stats_counter_is_expired :: "StatsOptions \<Rightarrow> StatsCluster \<Rightarrow> int \<Rightarrow> bool" where
  "stats_counter_is_expired stats_options sc now =
     (if \<not> dynamic sc then False
      else if 0 < ref_cnt sc then False
      else if (live_mask sc AND push_bit (sc_type_index SC_TYPE_STAMP) 1) = 0 then False
      else (let tstamp = counters sc SC_TYPE_STAMP
            in tstamp \<le> now - sint (lifetime stats_options)))"

text \<open>
  \<open>struct _StatsTimerState\<close>; its field \<open>now\<close> is \<open>st_now\<close> here. The event
  \<open>stats_event\<close> is a null pointer or the list of the clusters formatted into it.
\<close>

record StatsTimerState =
  st_now :: GTimeVal
  oldest_counter :: int
  dropped_counters :: gint
  stats_event :: "StatsCluster list option"

definition stats_prune_counter ::
  "StatsOptions \<Rightarrow> StatsCluster \<Rightarrow> StatsTimerState \<Rightarrow> StatsTimerState \<times> bool" where
  "stats_prune_counter stats_options sc st =
     (let expired = stats_counter_is_expired stats_options sc (sint (tv_sec (st_now st)))
      in if expired
         then (let tstamp = counters sc SC_TYPE_STAMP;
                   st1 = (if oldest_counter st = 0 \<or> oldest_counter st > tstamp
                          then st\<lparr>oldest_counter := tstamp\<rparr> else st)
               in (st1\<lparr>dropped_counters := dropped_counters st1 + 1\<rparr>, expired))
         else (st, expired))"

text \<open>
  Modelled from the spec: \<open>stats_log_format_cluster\<close> (\<open>stats-log.h\<close>, not among the
  sources) formats the cluster into the snapshot event.
\<close>

definition stats_log_format_cluster ::
  "StatsCluster \<Rightarrow> StatsCluster list option \<Rightarrow> StatsCluster list option" where
  "stats_log_format_cluster sc ev = map_option (\<lambda>formatted. formatted @ [sc]) ev"

definition stats_format_and_prune_cluster ::
  "StatsOptions \<Rightarrow> StatsCluster \<Rightarrow> StatsTimerState \<Rightarrow> StatsTimerState \<times> bool" where
  "stats_format_and_prune_cluster stats_options sc st =
     stats_prune_counter stats_options sc
       (st\<lparr>stats_event := stats_log_format_cluster sc (stats_event st)\<rparr>)"

text \<open>
  Modelled from the spec: \<open>stats_foreach_cluster_remove\<close> (\<open>stats-registry.h\<close>, not
  among the sources) visits every registered cluster exactly once and removes those for
  which the callback returns true. The registry is the list of its clusters in the order
  of the visit.
\<close>

fun stats_foreach_cluster_remove ::
  "(StatsCluster \<Rightarrow> 'a \<Rightarrow> 'a \<times> bool) \<Rightarrow> StatsCluster list \<Rightarrow> 'a \<Rightarrow> StatsCluster list \<times> 'a" where
  "stats_foreach_cluster_remove func [] user_data = ([], user_data)"
| "stats_foreach_cluster_remove func (sc # scs) user_data =
     (let (user_data', remove) = func sc user_data;
          (kept, user_data'') = stats_foreach_cluster_remove func scs user_data'
      in (if remove then kept else sc # kept, user_data''))"

text \<open>
  The outcome of \<open>stats_publish_and_prune_counters\<close>: the registry after the pass, the
  timer state \<open>st\<close> at its end, the event handed to \<open>msg_event_send\<close>, and the tags
  \<open>dropped\<close> and \<open>oldest-timestamp\<close> of the notice, when it is emitted.
\<close>

record PruneOutcome =
  registry_after :: "StatsCluster list"
  final_st :: StatsTimerState
  event_sent :: "StatsCluster list option"
  notice :: "(gint \<times> int) option"

definition stats_publish_and_prune_counters ::
  "StatsOptions \<Rightarrow> StatsCluster list \<Rightarrow> GTimeVal \<Rightarrow> PruneOutcome" where
  "stats_publish_and_prune_counters stats_options registry now =
     (let publish = (0 <s log_freq stats_options);
          st = \<lparr>st_now = now, oldest_counter = 0, dropped_counters = 0,
                stats_event = (if publish then Some [] else None)\<rparr>;
          (registry', st') =
             stats_foreach_cluster_remove (stats_format_and_prune_cluster stats_options) registry st
      in \<lparr>registry_after = registry',
          final_st = st',
          event_sent = (if publish then stats_event st' else None),
          notice = (if 0 <s dropped_counters st'
                    then Some (dropped_counters st', oldest_counter st') else None)\<rparr>)"

text \<open>
  \<open>struct iv_timer\<close>, as far as \<open>lib/stats.c\<close> uses it: whether a handler is set, the
  cookie holding the interval in seconds, whether the timer is registered, and the expiry
  time in milliseconds. \<open>iv_now\<close> is an argument.
\<close>

record iv_timer =
  handler :: bool
  cookie :: gint
  registered :: bool
  expires :: int

definition stats_timer_rearm :: "int \<Rightarrow> iv_timer \<Rightarrow> iv_timer" where
  "stats_timer_rearm iv_now timer =
     (let freq = cookie timer
      in if 0 <s freq
         then timer\<lparr>expires := iv_now + sint (freq * 1000), registered := True\<rparr>
         else timer)"

definition stats_timer_init :: "iv_timer \<Rightarrow> gint \<Rightarrow> iv_timer" where
  "stats_timer_init timer freq = timer\<lparr>registered := False, handler := True, cookie := freq\<rparr>"

definition stats_timer_kill :: "iv_timer \<Rightarrow> iv_timer" where
  "stats_timer_kill timer =
     (if \<not> handler timer then timer
      else if registered timer then timer\<lparr>registered := False\<rparr>
      else timer)"

text \<open>
  \<open>stats_timer_elapsed\<close>, the handler of the timer: one pass, then the timer is armed
  again with the interval it holds.
\<close>

definition stats_timer_elapsed ::
  "StatsOptions \<Rightarrow> StatsCluster list \<Rightarrow> GTimeVal \<Rightarrow> int \<Rightarrow> iv_timer \<Rightarrow> PruneOutcome \<times> iv_timer" where
  "stats_timer_elapsed stats_options registry now iv_now stats_timer =
     (stats_publish_and_prune_counters stats_options registry now,
      stats_timer_rearm iv_now stats_timer)"

text \<open>Lines 308 to 310 of \<open>stats_timer_reinit\<close>: the value of \<open>freq\<close>.\<close>

definition stats_timer_freq :: "StatsOptions \<Rightarrow> gint" where
  "stats_timer_freq stats_options =
     (let freq = log_freq stats_options
      in if freq = 0
         then (if lifetime stats_options \<le>s 1 then 1 else c_div (lifetime stats_options) 2)
         else freq)"

definition stats_timer_reinit :: "StatsOptions \<Rightarrow> int \<Rightarrow> iv_timer \<Rightarrow> iv_timer" where
  "stats_timer_reinit stats_options iv_now stats_timer =
     (let freq = stats_timer_freq stats_options
      in stats_timer_rearm iv_now (stats_timer_init (stats_timer_kill stats_timer) freq))"

text \<open>
  The interval of the spec, in its words: \<open>log_freq\<close> if nonzero, else
  \<open>max(1, lifetime / 2)\<close>, on mathematical integers with the division \<open>quot\<close>.
\<close>

definition spec_timer_interval :: "(int \<Rightarrow> int \<Rightarrow> int) \<Rightarrow> int \<Rightarrow> int \<Rightarrow> int" where
  "spec_timer_interval quot log_freq_val lifetime_val =
     (if log_freq_val \<noteq> 0 then log_freq_val else max 1 (quot lifetime_val 2))"

text \<open>
  The globals \<open>stats_options\<close>, a pointer that is null until \<open>stats_reinit\<close> installs an
  options object, and \<open>stats_timer\<close>.
\<close>

record StatsGlobals =
  stats_options_ptr :: "StatsOptions option"
  stats_timer :: iv_timer

definition stats_globals_initial :: StatsGlobals where
  "stats_globals_initial =
     \<lparr>stats_options_ptr = None,
      stats_timer = \<lparr>handler = False, cookie = 0, registered = False, expires = 0\<rparr>\<rparr>"

definition stats_check_level :: "StatsGlobals \<Rightarrow> gint \<Rightarrow> bool" where
  "stats_check_level g lvl =
     (case stats_options_ptr g of
        Some stats_options \<Rightarrow> lvl \<le>s level stats_options
      | None \<Rightarrow> lvl = 0)"

definition stats_reinit :: "StatsOptions \<Rightarrow> int \<Rightarrow> StatsGlobals \<Rightarrow> StatsGlobals" where
  "stats_reinit options iv_now g =
     g\<lparr>stats_options_ptr := Some options,
       stats_timer := stats_timer_reinit options iv_now (stats_timer g)\<rparr>"

text \<open>
  The key of a batch in the words of the spec: the value that the last record stores under
  the key field when a key field is configured, and the empty string when no key field is
  configured or that record does not store the field.
\<close>

definition last_record_key :: "FilterThrottle \<Rightarrow> LogMessage list \<Rightarrow> string" where
  "last_record_key self msgs =
     (if key_handle self \<noteq> 0
      then (case (last msgs) (key_handle self) of Some v \<Rightarrow> v | None \<Rightarrow> [])
      else [])"

text \<open>
  The clusters of a registry for which \<open>stats_counter_is_expired\<close> holds at the time of
  a pass, in the order of the visit.
\<close>

definition expired_clusters :: "StatsOptions \<Rightarrow> GTimeVal \<Rightarrow> StatsCluster list \<Rightarrow> StatsCluster list" where
  "expired_clusters stats_options now registry =
     filter (\<lambda>sc. stats_counter_is_expired stats_options sc (sint (tv_sec now))) registry"

text \<open>
  A cluster whose only live counter is the timestamp, for the examples: the timestamp,
  the reference count and the flag \<open>dynamic\<close> are given, the mask is
  \<open>1 << SC_TYPE_STAMP\<close>.
\<close>

definition stamped_cluster :: "int \<Rightarrow> int \<Rightarrow> bool \<Rightarrow> StatsCluster" where
  "stamped_cluster tstamp refs dyn =
     \<lparr>counters = (\<lambda>_. 0)(SC_TYPE_STAMP := tstamp), ref_cnt = refs, live_mask = 16,
      dynamic = dyn\<rparr>"

section \<open>Properties of the token bucket\<close>

lemma gint_of_glong_of_int: "gint_of_glong (word_of_int k) = word_of_int k"
  unfolding gint_of_glong_def
  by (rule bit_word_eqI) (auto simp add: bit_simps)

lemma sint_glong_of_gint: "sint (glong_of_gint x) = sint x"
  unfolding glong_of_gint_def by (rule sint_up_scast) (simp add: is_up)

lemma sint_G_USEC_PER_SEC: "sint G_USEC_PER_SEC = 1000000"
  by (simp add: G_USEC_PER_SEC_def)

lemma num_new_tokens_eq:
  "num_new_tokens now self =
     word_of_int (sint (g_time_val_diff now (last_check self) * glong_of_gint (rate self))
                  sdiv 1000000)"
  by (simp add: num_new_tokens_def c_div_def gint_of_glong_of_int sint_G_USEC_PER_SEC)

lemma sint_num_new_tokens:
  assumes T: "0 \<le> sint (g_time_val_diff now (last_check self))"
    and R: "0 \<le> sint (rate self)"
    and prod: "sint (g_time_val_diff now (last_check self)) * sint (rate self) < 2 ^ 63"
    and quot: "sint (g_time_val_diff now (last_check self)) * sint (rate self) div 1000000 < 2 ^ 31"
  shows "sint (num_new_tokens now self) =
           sint (g_time_val_diff now (last_check self)) * sint (rate self) div 1000000"
proof -
  let ?T = "sint (g_time_val_diff now (last_check self))"
  let ?R = "sint (rate self)"
  have nonneg: "0 \<le> ?T * ?R" using T R by simp
  have "sint (g_time_val_diff now (last_check self) * glong_of_gint (rate self)) =
          signed_take_bit 63 (?T * ?R)"
    by (simp add: sint_word_mult sint_glong_of_gint)
  also have "\<dots> = ?T * ?R"
    using nonneg prod by (intro signed_take_bit_int_eq_self) simp_all
  finally have m: "sint (g_time_val_diff now (last_check self) * glong_of_gint (rate self)) = ?T * ?R" .
  have d: "(?T * ?R) sdiv 1000000 = ?T * ?R div 1000000"
    using nonneg by (simp add: signed_divide_int_def sgn_if)
  have q0: "0 \<le> ?T * ?R div 1000000" using nonneg by simp
  have "sint (num_new_tokens now self) = signed_take_bit 31 (?T * ?R div 1000000)"
    by (simp add: num_new_tokens_eq m d sint_sbintrunc')
  also have "\<dots> = ?T * ?R div 1000000"
    using q0 quot by (intro signed_take_bit_int_eq_self) simp_all
  finally show ?thesis .
qed

lemma sint_c_MIN: "sint (c_MIN a b) = min (sint a) (sint b)"
  by (simp add: c_MIN_def word_sless_alt min_def)

lemma c_MIN_sle: "c_MIN a b \<le>s a"
  by (simp add: c_MIN_def word_sle_eq word_sless_alt)

lemma add_new_tokens_rate: "rate (throttle_ratelimit_add_new_tokens now self) = rate self"
  by (simp add: throttle_ratelimit_add_new_tokens_def Let_def)

lemma add_new_tokens_le_rate:
  "tokens self \<le>s rate self \<Longrightarrow>
   tokens (throttle_ratelimit_add_new_tokens now self) \<le>s rate self"
  by (simp add: throttle_ratelimit_add_new_tokens_def Let_def c_MIN_sle)

lemma sint_sub_in_range:
  fixes a n :: gint
  assumes "n \<le>s a" and "sint a - sint n < 2 ^ 31"
  shows "sint (a - n) = sint a - sint n"
proof -
  have "0 \<le> sint a - sint n" using assms(1) by (simp add: word_sle_eq)
  then have "signed_take_bit 31 (sint a - sint n) = sint a - sint n"
    using assms(2) by (intro signed_take_bit_int_eq_self) simp_all
  then show ?thesis by (simp add: sint_word_diff)
qed

text \<open>
  Claim C2: \<open>try_consume n\<close> succeeds exactly when \<open>tokens \<ge> n\<close> (as signed
  integers); on success the tokens become \<open>tokens - n\<close> and no other field changes; on
  failure the bucket is unchanged. The new value is \<open>tokens - n\<close> in \<open>gint\<close>
  arithmetic, and the integer \<open>tokens - n\<close> whenever a \<open>gint\<close> holds that integer,
  which is so for every \<open>n \<ge> 0\<close>.
\<close>

theorem try_consume_conservation:
  "(snd (throttle_ratelimit_try_consume_tokens self n) \<longleftrightarrow> sint n \<le> sint (tokens self)) \<and>
   (sint n \<le> sint (tokens self) \<longrightarrow>
      fst (throttle_ratelimit_try_consume_tokens self n) = self\<lparr>tokens := tokens self - n\<rparr> \<and>
      rate (fst (throttle_ratelimit_try_consume_tokens self n)) = rate self \<and>
      last_check (fst (throttle_ratelimit_try_consume_tokens self n)) = last_check self \<and>
      (sint (tokens self) - sint n < 2 ^ 31 \<longrightarrow>
         sint (tokens (fst (throttle_ratelimit_try_consume_tokens self n))) =
           sint (tokens self) - sint n)) \<and>
   (\<not> sint n \<le> sint (tokens self) \<longrightarrow>
      throttle_ratelimit_try_consume_tokens self n = (self, False))"
  by (simp add: throttle_ratelimit_try_consume_tokens_def word_sle_eq sint_sub_in_range)

lemma try_consume_le_rate:
  assumes "0 \<le>s n" and "tokens self \<le>s rate self"
  shows "tokens (fst (throttle_ratelimit_try_consume_tokens self n)) \<le>s
         rate (fst (throttle_ratelimit_try_consume_tokens self n))"
proof (cases "n \<le>s tokens self")
  case True
  have "sint (tokens self) - sint n < 2 ^ 31"
    using assms(1) sint_lt [of "tokens self"] by (simp add: word_sle_eq)
  then have "sint (tokens self - n) = sint (tokens self) - sint n"
    using True by (rule sint_sub_in_range [rotated])
  then show ?thesis
    using True assms by (simp add: throttle_ratelimit_try_consume_tokens_def word_sle_eq)
next
  case False
  then show ?thesis
    using assms by (simp add: throttle_ratelimit_try_consume_tokens_def)
qed

lemma g_time_val_diff_same: "g_time_val_diff t t = 0"
  by (simp add: g_time_val_diff_def)

lemma num_new_tokens_no_elapsed: "num_new_tokens (last_check self) self = 0"
  by (simp add: num_new_tokens_eq g_time_val_diff_same)

lemma add_new_tokens_no_elapsed:
  "throttle_ratelimit_add_new_tokens (last_check self) self = self"
  by (simp add: throttle_ratelimit_add_new_tokens_def num_new_tokens_no_elapsed)

text \<open>
  Claim C1 (token bounds: \<open>0 \<le> tokens \<le> capacity\<close> after every sequence of refills and
  consumes, for a bucket created with a positive rate). The code breaks the lower bound.
  A bucket is created with rate 1000 at time 0 and refilled 2147484 seconds (about 25
  days) later: the elapsed time is 2147484000000 microseconds, the quotient
  \<open>usec * rate / G_USEC_PER_SEC\<close> is 2147484000, more than a \<open>gint\<close> holds, and
  \<open>num_new_tokens\<close> receives it as \<open>- 2147483296\<close>. The bucket is left with
  \<open>- 2147482296\<close> tokens, and the request for one token made in the same call is
  refused.
\<close>

theorem tokens_negative_after_long_idle:
  "throttle_ratelimit_new 1000 \<lparr>tv_sec = 0, tv_usec = 0\<rparr> =
     \<lparr>tokens = 1000, rate = 1000, last_check = \<lparr>tv_sec = 0, tv_usec = 0\<rparr>\<rparr> \<and>
   sint (g_time_val_diff \<lparr>tv_sec = 2147484, tv_usec = 0\<rparr> \<lparr>tv_sec = 0, tv_usec = 0\<rparr>) =
     2147484000000 \<and>
   sint (num_new_tokens \<lparr>tv_sec = 2147484, tv_usec = 0\<rparr>
           (throttle_ratelimit_new 1000 \<lparr>tv_sec = 0, tv_usec = 0\<rparr>)) = - 2147483296 \<and>
   sint (tokens (throttle_ratelimit_add_new_tokens \<lparr>tv_sec = 2147484, tv_usec = 0\<rparr>
           (throttle_ratelimit_new 1000 \<lparr>tv_sec = 0, tv_usec = 0\<rparr>))) = - 2147482296 \<and>
   \<not> snd (throttle_ratelimit_process_new_logs \<lparr>tv_sec = 2147484, tv_usec = 0\<rparr>
           (throttle_ratelimit_new 1000 \<lparr>tv_sec = 0, tv_usec = 0\<rparr>) 1)"
  by code_simp

text \<open>
  The same happens when the wall clock is set back: a bucket of rate 1 that is empty at
  time 100 and refilled when the clock reads 99 is left with \<open>- 1\<close> tokens.
\<close>

lemma tokens_negative_after_clock_step_back:
  "sint (g_time_val_diff \<lparr>tv_sec = 99, tv_usec = 0\<rparr> \<lparr>tv_sec = 100, tv_usec = 0\<rparr>) = - 1000000 \<and>
   sint (tokens (throttle_ratelimit_add_new_tokens \<lparr>tv_sec = 99, tv_usec = 0\<rparr>
           \<lparr>tokens = 0, rate = 1, last_check = \<lparr>tv_sec = 100, tv_usec = 0\<rparr>\<rparr>)) = - 1"
  by code_simp

text \<open>
  The upper bound does hold: a refill caps the tokens at the rate, and a request for
  \<open>n \<ge> 0\<close> tokens never adds any. So every bucket reached from a new one by such
  requests has at most \<open>rate\<close> tokens.
\<close>

lemma process_new_logs_le_rate:
  assumes "0 \<le>s n" and "tokens self \<le>s rate self"
  shows "tokens (fst (throttle_ratelimit_process_new_logs now self n)) \<le>s rate self \<and>
         rate (fst (throttle_ratelimit_process_new_logs now self n)) = rate self"
proof -
  let ?filled = "throttle_ratelimit_add_new_tokens now self"
  have r: "rate ?filled = rate self" by (rule add_new_tokens_rate)
  have "tokens ?filled \<le>s rate ?filled"
    using add_new_tokens_le_rate [OF assms(2), of now] r by simp
  from try_consume_le_rate [OF assms(1) this]
  show ?thesis
    by (simp add: throttle_ratelimit_process_new_logs_def r
        throttle_ratelimit_try_consume_tokens_def split: if_splits)
qed

lemma fst_process_requests_Cons:
  "fst (process_requests self ((now, n) # reqs)) =
     fst (process_requests (fst (throttle_ratelimit_process_new_logs now self n)) reqs)"
  by (simp add: case_prod_beta)

lemma process_requests_le_rate:
  assumes "tokens self \<le>s rate self" and "\<forall>(now, n) \<in> set reqs. 0 \<le>s n"
  shows "tokens (fst (process_requests self reqs)) \<le>s rate self \<and>
         rate (fst (process_requests self reqs)) = rate self"
  using assms
proof (induction reqs arbitrary: self)
  case Nil
  then show ?case by simp
next
  case (Cons req reqs)
  obtain now n where req: "req = (now, n)" by (cases req)
  let ?next = "fst (throttle_ratelimit_process_new_logs now self n)"
  have n: "0 \<le>s n" using Cons.prems(2) req by simp
  have step: "tokens ?next \<le>s rate self \<and> rate ?next = rate self"
    using process_new_logs_le_rate [OF n Cons.prems(1)] .
  have rest: "\<forall>(now, n) \<in> set reqs. 0 \<le>s n" using Cons.prems(2) by simp
  have "tokens (fst (process_requests ?next reqs)) \<le>s rate ?next \<and>
        rate (fst (process_requests ?next reqs)) = rate ?next"
    using Cons.IH [of ?next] step rest by simp
  then show ?case
    using step by (simp only: req fst_process_requests_Cons)
qed

lemma new_bucket_le_rate:
  "tokens (throttle_ratelimit_new r now) \<le>s rate (throttle_ratelimit_new r now)"
  by (simp add: throttle_ratelimit_new_def)

text \<open>
  Claim C6: a request for more tokens than the capacity fails, whatever the time elapsed,
  for every bucket whose tokens do not exceed its capacity, and so for every bucket
  reached from a new one by requests of \<open>m \<ge> 0\<close> tokens at any times; and with rate 5
  and no time elapsed, five requests of 5 tokens in a row give one success, which leaves
  0 tokens, and four failures.
\<close>

theorem process_over_capacity_fails:
  "(tokens self \<le>s rate self \<and> rate self <s n \<longrightarrow>
      \<not> snd (throttle_ratelimit_process_new_logs now self n)) \<and>
   ((\<forall>(t, m) \<in> set reqs. 0 \<le>s m) \<and> r <s n \<longrightarrow>
      \<not> snd (throttle_ratelimit_process_new_logs now
               (fst (process_requests (throttle_ratelimit_new r created) reqs)) n)) \<and>
   process_requests (throttle_ratelimit_new 5 created) [(created, 5), (created, 5), (created, 5), (created, 5), (created, 5)] =
     (\<lparr>tokens = 0, rate = 5, last_check = created\<rparr>, [True, False, False, False, False])"
proof (intro conjI impI)
  have fails: "\<not> snd (throttle_ratelimit_process_new_logs now b n)"
    if a: "tokens b \<le>s rate b" "rate b <s n" for b
  proof -
    have "sint (tokens (throttle_ratelimit_add_new_tokens now b)) \<le> sint (rate b)"
      using add_new_tokens_le_rate [of b now] a(1) by (simp add: word_sle_eq)
    moreover have "sint (rate b) < sint n" using a(2) by (simp add: word_sless_alt)
    ultimately show ?thesis
      by (simp add: throttle_ratelimit_process_new_logs_def
          throttle_ratelimit_try_consume_tokens_def word_sle_eq)
  qed
  {
    assume "tokens self \<le>s rate self \<and> rate self <s n"
    then show "\<not> snd (throttle_ratelimit_process_new_logs now self n)"
      using fails [of self] by simp
  }
  {
    assume a: "(\<forall>(t, m) \<in> set reqs. 0 \<le>s m) \<and> r <s n"
    let ?b = "fst (process_requests (throttle_ratelimit_new r created) reqs)"
    have "tokens ?b \<le>s rate (throttle_ratelimit_new r created) \<and>
          rate ?b = rate (throttle_ratelimit_new r created)"
      using process_requests_le_rate [OF new_bucket_le_rate [of r created], of reqs] a by simp
    moreover have "rate (throttle_ratelimit_new r created) = r"
      by (simp add: throttle_ratelimit_new_def)
    ultimately show "\<not> snd (throttle_ratelimit_process_new_logs now ?b n)"
      using fails [of ?b] a by simp
  }
  let ?b0 = "\<lparr>tokens = 5, rate = 5, last_check = created\<rparr>"
  let ?b1 = "\<lparr>tokens = 0, rate = 5, last_check = created\<rparr>"
  have r0: "throttle_ratelimit_add_new_tokens created ?b0 = ?b0"
    using add_new_tokens_no_elapsed [of ?b0] by simp
  have r1: "throttle_ratelimit_add_new_tokens created ?b1 = ?b1"
    using add_new_tokens_no_elapsed [of ?b1] by simp
  have p0: "throttle_ratelimit_process_new_logs created ?b0 5 = (?b1, True)"
    by (simp add: throttle_ratelimit_process_new_logs_def r0
        throttle_ratelimit_try_consume_tokens_def word_sle_eq)
  have p1: "throttle_ratelimit_process_new_logs created ?b1 5 = (?b1, False)"
    by (simp add: throttle_ratelimit_process_new_logs_def r1
        throttle_ratelimit_try_consume_tokens_def word_sle_eq)
  show "process_requests (throttle_ratelimit_new 5 created)
          [(created, 5), (created, 5), (created, 5), (created, 5), (created, 5)] =
        (?b1, [True, False, False, False, False])"
    by (simp add: throttle_ratelimit_new_def p0 p1)
qed

lemma sint_add_in_range:
  fixes a n :: gint
  assumes "0 \<le> sint n" and "sint a + sint n < 2 ^ 31"
  shows "sint (a + n) = sint a + sint n"
proof -
  have "- (2 ^ 31) \<le> sint a + sint n"
    using assms(1) sint_ge [of a] by simp
  then have "signed_take_bit 31 (sint a + sint n) = sint a + sint n"
    using assms(2) by (intro signed_take_bit_int_eq_self) simp_all
  then show ?thesis by (simp add: sint_word_add)
qed

lemma add_new_tokens_in_range:
  assumes T: "0 \<le> sint (g_time_val_diff now (last_check self))"
    and R: "0 \<le> sint (rate self)"
    and prod: "sint (g_time_val_diff now (last_check self)) * sint (rate self) < 2 ^ 63"
    and quot: "sint (g_time_val_diff now (last_check self)) * sint (rate self) div 1000000 < 2 ^ 31"
    and sum: "sint (tokens self) +
              sint (g_time_val_diff now (last_check self)) * sint (rate self) div 1000000 < 2 ^ 31"
  shows "sint (num_new_tokens now self) =
           sint (g_time_val_diff now (last_check self)) * sint (rate self) div 1000000"
    and "0 < sint (g_time_val_diff now (last_check self)) * sint (rate self) div 1000000 \<Longrightarrow>
         sint (tokens (throttle_ratelimit_add_new_tokens now self)) =
           min (sint (rate self))
               (sint (tokens self) +
                sint (g_time_val_diff now (last_check self)) * sint (rate self) div 1000000) \<and>
         last_check (throttle_ratelimit_add_new_tokens now self) = now \<and>
         rate (throttle_ratelimit_add_new_tokens now self) = rate self"
    and "sint (g_time_val_diff now (last_check self)) * sint (rate self) div 1000000 = 0 \<Longrightarrow>
         throttle_ratelimit_add_new_tokens now self = self"
proof -
  let ?new = "sint (g_time_val_diff now (last_check self)) * sint (rate self) div 1000000"
  show n: "sint (num_new_tokens now self) = ?new"
    using T R prod quot by (rule sint_num_new_tokens)
  have "0 \<le> sint (g_time_val_diff now (last_check self)) * sint (rate self)"
    using T R by simp
  then have nonneg: "0 \<le> ?new" by (simp add: pos_imp_zdiv_nonneg_iff)
  {
    assume pos: "0 < ?new"
    then have nz: "num_new_tokens now self \<noteq> 0" using n by auto
    have "sint (tokens self + num_new_tokens now self) = sint (tokens self) + ?new"
      using sint_add_in_range [of "num_new_tokens now self" "tokens self"] nonneg sum n by simp
    then show "sint (tokens (throttle_ratelimit_add_new_tokens now self)) =
           min (sint (rate self)) (sint (tokens self) + ?new) \<and>
         last_check (throttle_ratelimit_add_new_tokens now self) = now \<and>
         rate (throttle_ratelimit_add_new_tokens now self) = rate self"
      using nz by (simp add: throttle_ratelimit_add_new_tokens_def Let_def sint_c_MIN)
  }
  {
    assume "?new = 0"
    then have "sint (num_new_tokens now self) = 0" using n by simp
    then have "num_new_tokens now self = 0" by (simp only: signed_eq_0_iff)
    then show "throttle_ratelimit_add_new_tokens now self = self"
      by (simp add: throttle_ratelimit_add_new_tokens_def)
  }
qed

text \<open>
  Claim C3, amended. For a refill with elapsed time \<open>T \<ge> 0\<close> microseconds on a bucket
  of rate \<open>R \<ge> 0\<close>, where \<open>T * R\<close> fits a \<open>glong\<close> and the new tokens and their sum with
  the old ones fit a \<open>gint\<close>: the number of new tokens is \<open>T * R div 1000000\<close>; if it is
  positive, the tokens become \<open>min capacity (tokens + new)\<close> and \<open>last_check\<close> becomes
  \<open>now\<close>; if it is zero, the bucket is unchanged. In particular, when \<open>R\<close> divides
  1000000, an empty bucket has exactly 1 token after \<open>1000000 div R\<close> microseconds.
\<close>

theorem refill_within_range:
  "(0 \<le> sint (g_time_val_diff now (last_check self)) \<and> 0 \<le> sint (rate self) \<and>
    sint (g_time_val_diff now (last_check self)) * sint (rate self) < 2 ^ 63 \<and>
    sint (g_time_val_diff now (last_check self)) * sint (rate self) div 1000000 < 2 ^ 31 \<and>
    sint (tokens self) +
      sint (g_time_val_diff now (last_check self)) * sint (rate self) div 1000000 < 2 ^ 31 \<longrightarrow>
      sint (num_new_tokens now self) =
        sint (g_time_val_diff now (last_check self)) * sint (rate self) div 1000000 \<and>
      (0 < sint (g_time_val_diff now (last_check self)) * sint (rate self) div 1000000 \<longrightarrow>
         sint (tokens (throttle_ratelimit_add_new_tokens now self)) =
           min (sint (rate self))
               (sint (tokens self) +
                sint (g_time_val_diff now (last_check self)) * sint (rate self) div 1000000) \<and>
         last_check (throttle_ratelimit_add_new_tokens now self) = now \<and>
         rate (throttle_ratelimit_add_new_tokens now self) = rate self) \<and>
      (sint (g_time_val_diff now (last_check self)) * sint (rate self) div 1000000 = 0 \<longrightarrow>
         throttle_ratelimit_add_new_tokens now self = self)) \<and>
   (tokens self = 0 \<and> 0 < sint (rate self) \<and> sint (rate self) dvd 1000000 \<and>
    sint (g_time_val_diff now (last_check self)) = 1000000 div sint (rate self) \<longrightarrow>
      sint (num_new_tokens now self) = 1 \<and>
      sint (tokens (throttle_ratelimit_add_new_tokens now self)) = 1 \<and>
      last_check (throttle_ratelimit_add_new_tokens now self) = now)"
proof (intro conjI impI)
  assume a: "tokens self = 0 \<and> 0 < sint (rate self) \<and> sint (rate self) dvd 1000000 \<and>
    sint (g_time_val_diff now (last_check self)) = 1000000 div sint (rate self)"
  let ?T = "sint (g_time_val_diff now (last_check self))"
  let ?R = "sint (rate self)"
  from a have TR: "?T * ?R = 1000000" by simp
  have T: "0 \<le> ?T" using a by (simp add: pos_imp_zdiv_nonneg_iff)
  have R: "0 \<le> ?R" using a by simp
  have new: "?T * ?R div 1000000 = 1" by (simp add: TR)
  have prod: "?T * ?R < 2 ^ 63" by (simp add: TR)
  have quot: "?T * ?R div 1000000 < 2 ^ 31" by (simp add: new)
  have sum: "sint (tokens self) + ?T * ?R div 1000000 < 2 ^ 31" using a by (simp add: new)
  show "sint (num_new_tokens now self) = 1"
    using add_new_tokens_in_range(1) [OF T R prod quot sum] new by simp
  have "0 < ?T * ?R div 1000000" by (simp add: new)
  from add_new_tokens_in_range(2) [OF T R prod quot sum this]
  show "sint (tokens (throttle_ratelimit_add_new_tokens now self)) = 1"
    and "last_check (throttle_ratelimit_add_new_tokens now self) = now"
    using a new by simp_all
qed (use add_new_tokens_in_range in blast)+

text \<open>
  Claim C3 as stated fails at rate 3: \<open>1000000 / 3\<close> is 333333 microseconds, and after
  that time an empty bucket has gained no token, since \<open>333333 * 3 / 1000000 = 0\<close>.
\<close>

theorem refill_third_of_second_counterexample:
  "(1000000 :: int) div 3 = 333333 \<and>
   sint (g_time_val_diff \<lparr>tv_sec = 0, tv_usec = 333333\<rparr> \<lparr>tv_sec = 0, tv_usec = 0\<rparr>) = 333333 \<and>
   sint (num_new_tokens \<lparr>tv_sec = 0, tv_usec = 333333\<rparr>
          \<lparr>tokens = 0, rate = 3, last_check = \<lparr>tv_sec = 0, tv_usec = 0\<rparr>\<rparr>) \<noteq> 1 \<and>
   throttle_ratelimit_add_new_tokens \<lparr>tv_sec = 0, tv_usec = 333333\<rparr>
          \<lparr>tokens = 0, rate = 3, last_check = \<lparr>tv_sec = 0, tv_usec = 0\<rparr>\<rparr> =
     \<lparr>tokens = 0, rate = 3, last_check = \<lparr>tv_sec = 0, tv_usec = 0\<rparr>\<rparr>"
  by code_simp

text \<open>
  Claim C3, amended, at rate 4: one second adds 4 tokens to a bucket holding 2, capped at 4;
  250000 microseconds add 1 token to an empty bucket.
\<close>

theorem refill_within_range_witness:
  "(0 \<le> sint (g_time_val_diff \<lparr>tv_sec = 1, tv_usec = 0\<rparr> \<lparr>tv_sec = 0, tv_usec = 0\<rparr>) \<and>
    sint (g_time_val_diff \<lparr>tv_sec = 1, tv_usec = 0\<rparr> \<lparr>tv_sec = 0, tv_usec = 0\<rparr>) * 4 < 2 ^ 63 \<and>
    sint (g_time_val_diff \<lparr>tv_sec = 1, tv_usec = 0\<rparr> \<lparr>tv_sec = 0, tv_usec = 0\<rparr>) * 4
      div 1000000 = 4 \<and>
    sint (tokens (throttle_ratelimit_add_new_tokens \<lparr>tv_sec = 1, tv_usec = 0\<rparr>
            \<lparr>tokens = 2, rate = 4, last_check = \<lparr>tv_sec = 0, tv_usec = 0\<rparr>\<rparr>)) = 4) \<and>
   ((4 :: int) dvd 1000000 \<and>
    sint (g_time_val_diff \<lparr>tv_sec = 0, tv_usec = 250000\<rparr> \<lparr>tv_sec = 0, tv_usec = 0\<rparr>) =
      1000000 div 4 \<and>
    sint (tokens (throttle_ratelimit_add_new_tokens \<lparr>tv_sec = 0, tv_usec = 250000\<rparr>
            \<lparr>tokens = 0, rate = 4, last_check = \<lparr>tv_sec = 0, tv_usec = 0\<rparr>\<rparr>)) = 1)"
  using refill_within_range [of "\<lparr>tv_sec = 1, tv_usec = 0\<rparr>"
          "\<lparr>tokens = 2, rate = 4, last_check = \<lparr>tv_sec = 0, tv_usec = 0\<rparr>\<rparr>"]
        refill_within_range [of "\<lparr>tv_sec = 0, tv_usec = 250000\<rparr>"
          "\<lparr>tokens = 0, rate = 4, last_check = \<lparr>tv_sec = 0, tv_usec = 0\<rparr>\<rparr>"]
  by (simp add: g_time_val_diff_def G_USEC_PER_SEC_def)

text \<open>
  Claim C2 at a bucket of 5 tokens: 3 tokens are granted and 2 are left, 7 tokens are
  refused.
\<close>

theorem try_consume_conservation_witness:
  "(sint (3 :: gint) \<le> sint (tokens \<lparr>tokens = 5, rate = 5, last_check = \<lparr>tv_sec = 7, tv_usec = 0\<rparr>\<rparr>) \<and>
    throttle_ratelimit_try_consume_tokens
       \<lparr>tokens = 5, rate = 5, last_check = \<lparr>tv_sec = 7, tv_usec = 0\<rparr>\<rparr> 3 =
      (\<lparr>tokens = 2, rate = 5, last_check = \<lparr>tv_sec = 7, tv_usec = 0\<rparr>\<rparr>, True)) \<and>
   (\<not> sint (7 :: gint) \<le> sint (tokens \<lparr>tokens = 5, rate = 5, last_check = \<lparr>tv_sec = 7, tv_usec = 0\<rparr>\<rparr>) \<and>
    throttle_ratelimit_try_consume_tokens
       \<lparr>tokens = 5, rate = 5, last_check = \<lparr>tv_sec = 7, tv_usec = 0\<rparr>\<rparr> 7 =
      (\<lparr>tokens = 5, rate = 5, last_check = \<lparr>tv_sec = 7, tv_usec = 0\<rparr>\<rparr>, False))"
  using try_consume_conservation [of "\<lparr>tokens = 5, rate = 5, last_check = \<lparr>tv_sec = 7, tv_usec = 0\<rparr>\<rparr>" 3]
        try_consume_conservation [of "\<lparr>tokens = 5, rate = 5, last_check = \<lparr>tv_sec = 7, tv_usec = 0\<rparr>\<rparr>" 7]
  by (simp add: prod_eq_iff)

text \<open>
  Claim C6 for 6 tokens, one hour later, at a full bucket of rate 5 and at the bucket
  reached from a new one of rate 5 by a request of 2 tokens.
\<close>

theorem process_over_capacity_fails_witness:
  "tokens \<lparr>tokens = 5, rate = 5, last_check = \<lparr>tv_sec = 0, tv_usec = 0\<rparr>\<rparr> \<le>s
     rate \<lparr>tokens = 5, rate = 5, last_check = \<lparr>tv_sec = 0, tv_usec = 0\<rparr>\<rparr> \<and>
   rate \<lparr>tokens = 5, rate = 5, last_check = \<lparr>tv_sec = 0, tv_usec = 0\<rparr>\<rparr> <s (6 :: gint) \<and>
   \<not> snd (throttle_ratelimit_process_new_logs \<lparr>tv_sec = 3600, tv_usec = 0\<rparr>
           \<lparr>tokens = 5, rate = 5, last_check = \<lparr>tv_sec = 0, tv_usec = 0\<rparr>\<rparr> 6) \<and>
   (0 :: gint) \<le>s 2 \<and> (5 :: gint) <s 6 \<and>
   \<not> snd (throttle_ratelimit_process_new_logs \<lparr>tv_sec = 3600, tv_usec = 0\<rparr>
           (fst (process_requests (throttle_ratelimit_new 5 \<lparr>tv_sec = 0, tv_usec = 0\<rparr>)
                   [(\<lparr>tv_sec = 1, tv_usec = 0\<rparr>, 2)])) 6)"
  using process_over_capacity_fails [where now = "\<lparr>tv_sec = 3600, tv_usec = 0\<rparr>" and n = 6
          and self = "\<lparr>tokens = 5, rate = 5, last_check = \<lparr>tv_sec = 0, tv_usec = 0\<rparr>\<rparr>"
          and r = 5 and created = "\<lparr>tv_sec = 0, tv_usec = 0\<rparr>"
          and reqs = "[(\<lparr>tv_sec = 1, tv_usec = 0\<rparr>, 2)]"]
  by (simp add: word_sle_eq)

section \<open>Properties of the throttle filter\<close>

text \<open>
  The table sees a key up to its first NUL byte; a value without NUL bytes is its own
  table key.
\<close>

lemma g_str_no_nul: "CHR 0x00 \<notin> set buf \<Longrightarrow> g_str buf = buf"
  unfolding g_str_def by (rule takeWhile_eq_all_conv [THEN iffD2]) auto

text \<open>
  The buffer \<open>key\<close> of a non-empty batch holds the key of the spec: \<open>msgs[num_msg-1]\<close>
  is the last record.
\<close>

lemma filter_throttle_key_last:
  "msgs \<noteq> [] \<Longrightarrow> filter_throttle_key self msgs = Some (last_record_key self msgs)"
  by (simp add: filter_throttle_key_def last_record_key_def log_msg_get_value_def last_conv_nth)

text \<open>
  Claim C8, amended. For a non-empty batch, \<open>filter_throttle_eval\<close> returns, and the
  bucket it looks up or creates, refills, charges with the size of the batch and stores
  is the one under the key of the last record cut at its first NUL byte: the value that
  the last record stores under the key field when a key field is configured, the empty
  string when no key field is configured or that record does not store the field. The
  cut changes nothing for a value without NUL bytes. The records before the last one
  count for the size of the batch only: two batches of the same length with the same
  last record are evaluated alike.
\<close>

theorem eval_key_from_last_record:
  "(msgs \<noteq> [] \<longrightarrow>
      filter_throttle_eval self msgs now_new now_fill =
        Some (self\<lparr>rate_limits := (rate_limits self)
                 (g_str (last_record_key self msgs) \<mapsto>
                    fst (throttle_ratelimit_process_new_logs now_fill
                          (case rate_limits self (g_str (last_record_key self msgs)) of
                             Some rl \<Rightarrow> rl
                           | None \<Rightarrow> throttle_ratelimit_new (filter_rate self) now_new)
                          (word_of_nat (length msgs))))\<rparr>,
              snd (throttle_ratelimit_process_new_logs now_fill
                    (case rate_limits self (g_str (last_record_key self msgs)) of
                       Some rl \<Rightarrow> rl
                     | None \<Rightarrow> throttle_ratelimit_new (filter_rate self) now_new)
                    (word_of_nat (length msgs))))) \<and>
   (CHR 0x00 \<notin> set (last_record_key self msgs) \<longrightarrow>
      g_str (last_record_key self msgs) = last_record_key self msgs) \<and>
   (key_handle self \<noteq> 0 \<and> (last msgs) (key_handle self) = Some v \<longrightarrow>
      last_record_key self msgs = v) \<and>
   (key_handle self = 0 \<or> (last msgs) (key_handle self) = None \<longrightarrow>
      last_record_key self msgs = []) \<and>
   (length earlier = length earlier' \<longrightarrow>
      filter_throttle_eval self (earlier @ [msg]) now_new now_fill =
      filter_throttle_eval self (earlier' @ [msg]) now_new now_fill)"
proof (intro conjI impI)
  assume "msgs \<noteq> []"
  then show "filter_throttle_eval self msgs now_new now_fill =
        Some (self\<lparr>rate_limits := (rate_limits self)
                 (g_str (last_record_key self msgs) \<mapsto>
                    fst (throttle_ratelimit_process_new_logs now_fill
                          (case rate_limits self (g_str (last_record_key self msgs)) of
                             Some rl \<Rightarrow> rl
                           | None \<Rightarrow> throttle_ratelimit_new (filter_rate self) now_new)
                          (word_of_nat (length msgs))))\<rparr>,
              snd (throttle_ratelimit_process_new_logs now_fill
                    (case rate_limits self (g_str (last_record_key self msgs)) of
                       Some rl \<Rightarrow> rl
                     | None \<Rightarrow> throttle_ratelimit_new (filter_rate self) now_new)
                    (word_of_nat (length msgs))))"
    by (simp add: filter_throttle_eval_def filter_throttle_key_last Let_def case_prod_beta)
next
  assume "CHR 0x00 \<notin> set (last_record_key self msgs)"
  then show "g_str (last_record_key self msgs) = last_record_key self msgs"
    by (rule g_str_no_nul)
next
  assume "key_handle self \<noteq> 0 \<and> (last msgs) (key_handle self) = Some v"
  then show "last_record_key self msgs = v" by (simp add: last_record_key_def)
next
  assume "key_handle self = 0 \<or> (last msgs) (key_handle self) = None"
  then show "last_record_key self msgs = []" by (auto simp add: last_record_key_def)
next
  assume len: "length earlier = length earlier'"
  have k: "filter_throttle_key self (earlier @ [msg]) = filter_throttle_key self (earlier' @ [msg])"
    by (simp add: filter_throttle_key_def)
  have l: "length (earlier @ [msg]) = length (earlier' @ [msg])" using len by simp
  show "filter_throttle_eval self (earlier @ [msg]) now_new now_fill =
        filter_throttle_eval self (earlier' @ [msg]) now_new now_fill"
    by (simp only: filter_throttle_eval_def k l)
qed

text \<open>
  Claim C8, amended, at a filter of rate 5 with an empty table and batches of two records:
  the bucket is stored under the value of the second record, under the empty key when the
  second record lacks the field, and under the empty key when no key field is configured;
  another first record gives the same result.
\<close>

theorem eval_key_from_last_record_witness:
  "[Map.empty(1 \<mapsto> ''first''), Map.empty(1 \<mapsto> ''last'')] \<noteq> ([] :: LogMessage list) \<and>
   CHR 0x00 \<notin> set ''last'' \<and>
   filter_throttle_eval \<lparr>key_handle = 1, filter_rate = 5, rate_limits = Map.empty\<rparr>
     [Map.empty(1 \<mapsto> ''first''), Map.empty(1 \<mapsto> ''last'')]
     \<lparr>tv_sec = 9, tv_usec = 0\<rparr> \<lparr>tv_sec = 9, tv_usec = 0\<rparr> =
     Some (\<lparr>key_handle = 1, filter_rate = 5,
            rate_limits = Map.empty(''last'' \<mapsto>
              \<lparr>tokens = 3, rate = 5, last_check = \<lparr>tv_sec = 9, tv_usec = 0\<rparr>\<rparr>)\<rparr>, True) \<and>
   filter_throttle_eval \<lparr>key_handle = 1, filter_rate = 5, rate_limits = Map.empty\<rparr>
     [Map.empty(1 \<mapsto> ''first''), Map.empty(2 \<mapsto> ''other'')]
     \<lparr>tv_sec = 9, tv_usec = 0\<rparr> \<lparr>tv_sec = 9, tv_usec = 0\<rparr> =
     Some (\<lparr>key_handle = 1, filter_rate = 5,
            rate_limits = Map.empty([] \<mapsto>
              \<lparr>tokens = 3, rate = 5, last_check = \<lparr>tv_sec = 9, tv_usec = 0\<rparr>\<rparr>)\<rparr>, True) \<and>
   filter_throttle_eval \<lparr>key_handle = 0, filter_rate = 5, rate_limits = Map.empty\<rparr>
     [Map.empty(1 \<mapsto> ''first''), Map.empty(1 \<mapsto> ''last'')]
     \<lparr>tv_sec = 9, tv_usec = 0\<rparr> \<lparr>tv_sec = 9, tv_usec = 0\<rparr> =
     Some (\<lparr>key_handle = 0, filter_rate = 5,
            rate_limits = Map.empty([] \<mapsto>
              \<lparr>tokens = 3, rate = 5, last_check = \<lparr>tv_sec = 9, tv_usec = 0\<rparr>\<rparr>)\<rparr>, True) \<and>
   length [Map.empty(1 \<mapsto> ''first'') :: LogMessage] = length [Map.empty(1 \<mapsto> ''second'') :: LogMessage] \<and>
   filter_throttle_eval \<lparr>key_handle = 1, filter_rate = 5, rate_limits = Map.empty\<rparr>
     ([Map.empty(1 \<mapsto> ''first'')] @ [Map.empty(1 \<mapsto> ''last'')])
     \<lparr>tv_sec = 9, tv_usec = 0\<rparr> \<lparr>tv_sec = 9, tv_usec = 0\<rparr> =
   filter_throttle_eval \<lparr>key_handle = 1, filter_rate = 5, rate_limits = Map.empty\<rparr>
     ([Map.empty(1 \<mapsto> ''second'')] @ [Map.empty(1 \<mapsto> ''last'')])
     \<lparr>tv_sec = 9, tv_usec = 0\<rparr> \<lparr>tv_sec = 9, tv_usec = 0\<rparr>"
proof -
  have p: "throttle_ratelimit_process_new_logs \<lparr>tv_sec = 9, tv_usec = 0\<rparr>
             (throttle_ratelimit_new 5 \<lparr>tv_sec = 9, tv_usec = 0\<rparr>) 2 =
           (\<lparr>tokens = 3, rate = 5, last_check = \<lparr>tv_sec = 9, tv_usec = 0\<rparr>\<rparr>, True)"
    by code_simp
  have k1: "last_record_key \<lparr>key_handle = 1, filter_rate = 5, rate_limits = Map.empty\<rparr>
              [Map.empty(1 \<mapsto> ''first''), Map.empty(1 \<mapsto> ''last'')] = ''last''"
    by (simp add: last_record_key_def)
  have k2: "last_record_key \<lparr>key_handle = 1, filter_rate = 5, rate_limits = Map.empty\<rparr>
              [Map.empty(1 \<mapsto> ''first''), Map.empty(2 \<mapsto> ''other'')] = []"
    by (simp add: last_record_key_def)
  have k3: "last_record_key \<lparr>key_handle = 0, filter_rate = 5, rate_limits = Map.empty\<rparr>
              [Map.empty(1 \<mapsto> ''first''), Map.empty(1 \<mapsto> ''last'')] = []"
    by (simp add: last_record_key_def)
  have g1: "g_str ''last'' = ''last''" by (simp add: g_str_def)
  have g2: "g_str [] = []" by (simp add: g_str_def)
  have e1: "filter_throttle_eval \<lparr>key_handle = 1, filter_rate = 5, rate_limits = Map.empty\<rparr>
     [Map.empty(1 \<mapsto> ''first''), Map.empty(1 \<mapsto> ''last'')]
     \<lparr>tv_sec = 9, tv_usec = 0\<rparr> \<lparr>tv_sec = 9, tv_usec = 0\<rparr> =
     Some (\<lparr>key_handle = 1, filter_rate = 5,
            rate_limits = Map.empty(''last'' \<mapsto>
              \<lparr>tokens = 3, rate = 5, last_check = \<lparr>tv_sec = 9, tv_usec = 0\<rparr>\<rparr>)\<rparr>, True)"
    using eval_key_from_last_record [where self = "\<lparr>key_handle = 1, filter_rate = 5, rate_limits = Map.empty\<rparr>"
            and msgs = "[Map.empty(1 \<mapsto> ''first''), Map.empty(1 \<mapsto> ''last'')]"
            and now_new = "\<lparr>tv_sec = 9, tv_usec = 0\<rparr>" and now_fill = "\<lparr>tv_sec = 9, tv_usec = 0\<rparr>",
            THEN conjunct1]
    by (simp add: p k1 g1)
  have e2: "filter_throttle_eval \<lparr>key_handle = 1, filter_rate = 5, rate_limits = Map.empty\<rparr>
     [Map.empty(1 \<mapsto> ''first''), Map.empty(2 \<mapsto> ''other'')]
     \<lparr>tv_sec = 9, tv_usec = 0\<rparr> \<lparr>tv_sec = 9, tv_usec = 0\<rparr> =
     Some (\<lparr>key_handle = 1, filter_rate = 5,
            rate_limits = Map.empty([] \<mapsto>
              \<lparr>tokens = 3, rate = 5, last_check = \<lparr>tv_sec = 9, tv_usec = 0\<rparr>\<rparr>)\<rparr>, True)"
    using eval_key_from_last_record [where self = "\<lparr>key_handle = 1, filter_rate = 5, rate_limits = Map.empty\<rparr>"
            and msgs = "[Map.empty(1 \<mapsto> ''first''), Map.empty(2 \<mapsto> ''other'')]"
            and now_new = "\<lparr>tv_sec = 9, tv_usec = 0\<rparr>" and now_fill = "\<lparr>tv_sec = 9, tv_usec = 0\<rparr>",
            THEN conjunct1]
    by (simp add: p k2 g2)
  have e3: "filter_throttle_eval \<lparr>key_handle = 0, filter_rate = 5, rate_limits = Map.empty\<rparr>
     [Map.empty(1 \<mapsto> ''first''), Map.empty(1 \<mapsto> ''last'')]
     \<lparr>tv_sec = 9, tv_usec = 0\<rparr> \<lparr>tv_sec = 9, tv_usec = 0\<rparr> =
     Some (\<lparr>key_handle = 0, filter_rate = 5,
            rate_limits = Map.empty([] \<mapsto>
              \<lparr>tokens = 3, rate = 5, last_check = \<lparr>tv_sec = 9, tv_usec = 0\<rparr>\<rparr>)\<rparr>, True)"
    using eval_key_from_last_record [where self = "\<lparr>key_handle = 0, filter_rate = 5, rate_limits = Map.empty\<rparr>"
            and msgs = "[Map.empty(1 \<mapsto> ''first''), Map.empty(1 \<mapsto> ''last'')]"
            and now_new = "\<lparr>tv_sec = 9, tv_usec = 0\<rparr>" and now_fill = "\<lparr>tv_sec = 9, tv_usec = 0\<rparr>",
            THEN conjunct1]
    by (simp add: p k3 g2)
  have e4: "filter_throttle_eval \<lparr>key_handle = 1, filter_rate = 5, rate_limits = Map.empty\<rparr>
     ([Map.empty(1 \<mapsto> ''first'')] @ [Map.empty(1 \<mapsto> ''last'')])
     \<lparr>tv_sec = 9, tv_usec = 0\<rparr> \<lparr>tv_sec = 9, tv_usec = 0\<rparr> =
   filter_throttle_eval \<lparr>key_handle = 1, filter_rate = 5, rate_limits = Map.empty\<rparr>
     ([Map.empty(1 \<mapsto> ''second'')] @ [Map.empty(1 \<mapsto> ''last'')])
     \<lparr>tv_sec = 9, tv_usec = 0\<rparr> \<lparr>tv_sec = 9, tv_usec = 0\<rparr>"
    by (rule eval_key_from_last_record [THEN conjunct2, THEN conjunct2, THEN conjunct2,
          THEN conjunct2, THEN mp]) simp
  show ?thesis
    by (intro conjI e1 e2 e3 e4) simp_all
qed

text \<open>
  Claim C8 as stated fails for a value with a NUL byte: when the last record stores the
  three bytes \<open>a\<close>, NUL, \<open>b\<close> under the key field, the evaluator works on the bucket of
  the key \<open>a\<close>, and the table has no entry under the value itself.
\<close>

theorem eval_key_cut_at_nul_counterexample:
  "log_msg_get_value (Map.empty(1 \<mapsto> [CHR ''a'', CHR 0x00, CHR ''b''])) 1 =
     [CHR ''a'', CHR 0x00, CHR ''b''] \<and>
   filter_throttle_eval \<lparr>key_handle = 1, filter_rate = 5, rate_limits = Map.empty\<rparr>
     [Map.empty(1 \<mapsto> [CHR ''a'', CHR 0x00, CHR ''b''])]
     \<lparr>tv_sec = 9, tv_usec = 0\<rparr> \<lparr>tv_sec = 9, tv_usec = 0\<rparr> =
     Some (\<lparr>key_handle = 1, filter_rate = 5,
            rate_limits = Map.empty(''a'' \<mapsto>
              \<lparr>tokens = 4, rate = 5, last_check = \<lparr>tv_sec = 9, tv_usec = 0\<rparr>\<rparr>)\<rparr>, True) \<and>
   ''a'' \<noteq> [CHR ''a'', CHR 0x00, CHR ''b''] \<and>
   (Map.empty(''a'' \<mapsto> \<lparr>tokens = 4, rate = 5, last_check = \<lparr>tv_sec = 9, tv_usec = 0\<rparr>\<rparr>))
     [CHR ''a'', CHR 0x00, CHR ''b''] = None"
proof -
  have p: "throttle_ratelimit_process_new_logs \<lparr>tv_sec = 9, tv_usec = 0\<rparr>
             (throttle_ratelimit_new 5 \<lparr>tv_sec = 9, tv_usec = 0\<rparr>) 1 =
           (\<lparr>tokens = 4, rate = 5, last_check = \<lparr>tv_sec = 9, tv_usec = 0\<rparr>\<rparr>, True)"
    by code_simp
  show ?thesis
    by (simp add: filter_throttle_eval_def filter_throttle_key_def log_msg_get_value_def
        g_str_def p)
qed

text \<open>
  Claim C9: the table is a map, so a key has at most one bucket; an evaluation whose key
  is \<open>key\<close> returns, adds at most the entry of \<open>key\<close> to the table, works on the bucket
  already stored under \<open>key\<close> when there is one, and leaves the bucket of every other
  key as it was.
\<close>

theorem key_isolation:
  "filter_throttle_key self msgs = Some key \<longrightarrow>
     (\<exists>self' within_ratelimit.
        filter_throttle_eval self msgs now_new now_fill = Some (self', within_ratelimit) \<and>
        (\<forall>k2. k2 \<noteq> g_str key \<longrightarrow> rate_limits self' k2 = rate_limits self k2) \<and>
        dom (rate_limits self') = insert (g_str key) (dom (rate_limits self)) \<and>
        rate_limits self' (g_str key) =
          Some (fst (throttle_ratelimit_process_new_logs now_fill
                  (case rate_limits self (g_str key) of
                     Some rl \<Rightarrow> rl
                   | None \<Rightarrow> throttle_ratelimit_new (filter_rate self) now_new)
                  (word_of_nat (length msgs)))) \<and>
        key_handle self' = key_handle self \<and> filter_rate self' = filter_rate self)"
  by (auto simp add: filter_throttle_eval_def Let_def split: prod.splits option.splits)

text \<open>
  Claim C9 at a table holding a bucket for \<open>b\<close>, on a batch whose key is \<open>a\<close>.
\<close>

theorem key_isolation_witness:
  "filter_throttle_key
     \<lparr>key_handle = 1, filter_rate = 5,
      rate_limits = Map.empty(''b'' \<mapsto> \<lparr>tokens = 5, rate = 5, last_check = \<lparr>tv_sec = 0, tv_usec = 0\<rparr>\<rparr>)\<rparr>
     [Map.empty(1 \<mapsto> ''a'')] = Some ''a'' \<and>
   ''b'' \<noteq> g_str ''a'' \<and>
   (\<exists>self' within_ratelimit.
      filter_throttle_eval
        \<lparr>key_handle = 1, filter_rate = 5,
         rate_limits = Map.empty(''b'' \<mapsto> \<lparr>tokens = 5, rate = 5, last_check = \<lparr>tv_sec = 0, tv_usec = 0\<rparr>\<rparr>)\<rparr>
        [Map.empty(1 \<mapsto> ''a'')] \<lparr>tv_sec = 9, tv_usec = 0\<rparr> \<lparr>tv_sec = 9, tv_usec = 0\<rparr> =
        Some (self', within_ratelimit) \<and>
      rate_limits self' ''b'' =
        Some \<lparr>tokens = 5, rate = 5, last_check = \<lparr>tv_sec = 0, tv_usec = 0\<rparr>\<rparr>)"
  using key_isolation [of
     "\<lparr>key_handle = 1, filter_rate = 5,
      rate_limits = Map.empty(''b'' \<mapsto> \<lparr>tokens = 5, rate = 5, last_check = \<lparr>tv_sec = 0, tv_usec = 0\<rparr>\<rparr>)\<rparr>"
     "[Map.empty(1 \<mapsto> ''a'')]" "''a''" "\<lparr>tv_sec = 9, tv_usec = 0\<rparr>" "\<lparr>tv_sec = 9, tv_usec = 0\<rparr>"]
  by (auto simp add: filter_throttle_key_def log_msg_get_value_def g_str_def)

section \<open>Properties of the statistics module\<close>

lemma stamp_mask_iff:
  "(m AND push_bit (sc_type_index SC_TYPE_STAMP) 1) = 0 \<longleftrightarrow> \<not> bit m (sc_type_index SC_TYPE_STAMP)"
  for m :: int
  using and_exp_eq_0_iff_not_bit [of m 4] by simp

text \<open>
  Claim C4: \<open>stats_counter_is_expired\<close> is false for a cluster that is not dynamic,
  false when the reference count is positive, false when the timestamp type is not in
  the liveness mask, and otherwise true exactly when the timestamp is at most
  \<open>now - lifetime\<close>; a timestamp equal to \<open>now - lifetime\<close> is expired.
\<close>

theorem is_expired_cases:
  "(\<not> dynamic sc \<longrightarrow> \<not> stats_counter_is_expired opts sc now) \<and>
   (0 < ref_cnt sc \<longrightarrow> \<not> stats_counter_is_expired opts sc now) \<and>
   (\<not> bit (live_mask sc) (sc_type_index SC_TYPE_STAMP) \<longrightarrow>
      \<not> stats_counter_is_expired opts sc now) \<and>
   (dynamic sc \<and> \<not> 0 < ref_cnt sc \<and> bit (live_mask sc) (sc_type_index SC_TYPE_STAMP) \<longrightarrow>
      (stats_counter_is_expired opts sc now \<longleftrightarrow>
         counters sc SC_TYPE_STAMP \<le> now - sint (lifetime opts))) \<and>
   (dynamic sc \<and> \<not> 0 < ref_cnt sc \<and> bit (live_mask sc) (sc_type_index SC_TYPE_STAMP) \<and>
    counters sc SC_TYPE_STAMP = now - sint (lifetime opts) \<longrightarrow>
      stats_counter_is_expired opts sc now)"
  using stamp_mask_iff [of "live_mask sc"]
  by (simp add: stats_counter_is_expired_def)

lemma format_and_prune_step:
  assumes "stats_format_and_prune_cluster opts sc st = (st1, r)"
  shows "r = stats_counter_is_expired opts sc (sint (tv_sec (st_now st)))"
    and "st_now st1 = st_now st"
    and "dropped_counters st1 = (if r then dropped_counters st + 1 else dropped_counters st)"
    and "oldest_counter st1 =
           (if r then (if oldest_counter st = 0 \<or> oldest_counter st > counters sc SC_TYPE_STAMP
                       then counters sc SC_TYPE_STAMP else oldest_counter st)
            else oldest_counter st)"
  using assms
  by (auto simp add: stats_format_and_prune_cluster_def stats_prune_counter_def Let_def
      split: if_splits)

lemma foreach_prune:
  assumes "stats_foreach_cluster_remove (stats_format_and_prune_cluster opts) scs st = (kept, st')"
  shows "kept = filter (\<lambda>sc. \<not> stats_counter_is_expired opts sc (sint (tv_sec (st_now st)))) scs \<and>
         st_now st' = st_now st \<and>
         dropped_counters st' =
           dropped_counters st +
           word_of_nat (length (filter (\<lambda>sc. stats_counter_is_expired opts sc
                                                (sint (tv_sec (st_now st)))) scs)) \<and>
         oldest_counter st' =
           fold (\<lambda>t old. if old = 0 \<or> old > t then t else old)
                (map (\<lambda>sc. counters sc SC_TYPE_STAMP)
                     (filter (\<lambda>sc. stats_counter_is_expired opts sc
                                      (sint (tv_sec (st_now st)))) scs))
                (oldest_counter st)"
  using assms
proof (induction scs arbitrary: st kept st')
  case Nil
  then show ?case by simp
next
  case (Cons sc scs)
  obtain st1 r where step: "stats_format_and_prune_cluster opts sc st = (st1, r)"
    by (cases "stats_format_and_prune_cluster opts sc st")
  obtain kept1 st2 where rest:
    "stats_foreach_cluster_remove (stats_format_and_prune_cluster opts) scs st1 = (kept1, st2)"
    by (cases "stats_foreach_cluster_remove (stats_format_and_prune_cluster opts) scs st1")
  from Cons.prems step rest have k: "kept = (if r then kept1 else sc # kept1)" and s: "st' = st2"
    by simp_all
  note facts = format_and_prune_step [OF step]
  from Cons.IH [OF rest] facts s k show ?case
    by (simp split: if_splits)
qed

lemma fold_oldest_nonzero:
  fixes old :: int
  assumes "old \<noteq> 0" and "\<forall>t \<in> set ts. t \<noteq> 0"
  shows "fold (\<lambda>t old. if old = 0 \<or> old > t then t else old) ts old = Min (set (old # ts))"
  using assms
proof (induction ts arbitrary: old)
  case Nil
  then show ?case by simp
next
  case (Cons t ts)
  have upd: "(if old = 0 \<or> old > t then t else old) = min old t"
    using Cons.prems(1) by (simp add: min_def)
  have nz: "min old t \<noteq> 0" using Cons.prems by (simp add: min_def)
  have "fold (\<lambda>t old. if old = 0 \<or> old > t then t else old) (t # ts) old =
        Min (set (min old t # ts))"
    using Cons.IH [OF nz] Cons.prems(2) by (simp add: upd)
  also have "\<dots> = Min (set (old # t # ts))"
  proof (cases "ts = []")
    case True
    then show ?thesis by simp
  next
    case False
    then show ?thesis by (simp add: min.assoc)
  qed
  finally show ?case .
qed

lemma fold_oldest_from_zero:
  fixes ts :: "int list"
  assumes "\<forall>t \<in> set ts. t \<noteq> 0"
  shows "fold (\<lambda>t old. if old = 0 \<or> old > t then t else old) ts 0 =
           (if ts = [] then 0 else Min (set ts))"
proof (cases ts)
  case Nil
  then show ?thesis by simp
next
  case (Cons t rest)
  then have "t \<noteq> 0" and "\<forall>u \<in> set rest. u \<noteq> 0" using assms by simp_all
  from fold_oldest_nonzero [OF this] show ?thesis by (simp add: Cons)
qed


lemma publish_and_prune_fields:
  "dropped_counters (final_st (stats_publish_and_prune_counters opts registry now)) =
     word_of_nat (length (expired_clusters opts now registry)) \<and>
   oldest_counter (final_st (stats_publish_and_prune_counters opts registry now)) =
     fold (\<lambda>t old. if old = 0 \<or> old > t then t else old)
          (map (\<lambda>sc. counters sc SC_TYPE_STAMP) (expired_clusters opts now registry)) 0 \<and>
   registry_after (stats_publish_and_prune_counters opts registry now) =
     filter (\<lambda>sc. \<not> stats_counter_is_expired opts sc (sint (tv_sec now))) registry"
proof -
  let ?st = "\<lparr>st_now = now, oldest_counter = 0, dropped_counters = 0,
              stats_event = (if 0 <s log_freq opts then Some [] else None)\<rparr>"
  obtain kept st' where run:
    "stats_foreach_cluster_remove (stats_format_and_prune_cluster opts) registry ?st = (kept, st')"
    by (cases "stats_foreach_cluster_remove (stats_format_and_prune_cluster opts) registry ?st")
  from foreach_prune [OF run] show ?thesis
    by (simp add: stats_publish_and_prune_counters_def Let_def run expired_clusters_def)
qed

lemma sint_gint_of_nat:
  assumes "n < 2 ^ 31"
  shows "sint (word_of_nat n :: gint) = int n"
proof -
  have "int n < 2 ^ 31" using assms by simp
  then have "signed_take_bit 31 (int n) = int n"
    by (intro signed_take_bit_int_eq_self) simp_all
  then show ?thesis by (simp add: signed_of_nat)
qed

text \<open>
  Claim C5, amended. After a pass over a registry, \<open>dropped_counters\<close> is the number of
  visited clusters for which \<open>stats_counter_is_expired\<close> holds (as a \<open>gint\<close>, and as an
  integer below \<open>2^31\<close>); when no expired cluster has the timestamp 0, \<open>oldest_counter\<close>
  is the least timestamp among the expired clusters, and 0 when there is none; the
  expired clusters are the ones removed; and a registry holding one dynamic cluster with
  reference count 0 and timestamp \<open>now - lifetime - 1\<close> gives \<open>dropped_counters = 1\<close>.
  The value 0 of \<open>oldest_counter\<close> stands for no timestamp yet, so an expired cluster
  with timestamp 0 makes the pass forget the minimum it has found.
\<close>

theorem maintenance_pass_aggregates:
  "dropped_counters (final_st (stats_publish_and_prune_counters opts registry now)) =
     word_of_nat (length (expired_clusters opts now registry)) \<and>
   (length (expired_clusters opts now registry) < 2 ^ 31 \<longrightarrow>
      sint (dropped_counters (final_st (stats_publish_and_prune_counters opts registry now))) =
        int (length (expired_clusters opts now registry))) \<and>
   ((\<forall>sc \<in> set (expired_clusters opts now registry). counters sc SC_TYPE_STAMP \<noteq> 0) \<longrightarrow>
      oldest_counter (final_st (stats_publish_and_prune_counters opts registry now)) =
        (if expired_clusters opts now registry = [] then 0
         else Min ((\<lambda>sc. counters sc SC_TYPE_STAMP) ` set (expired_clusters opts now registry)))) \<and>
   registry_after (stats_publish_and_prune_counters opts registry now) =
     filter (\<lambda>sc. \<not> stats_counter_is_expired opts sc (sint (tv_sec now))) registry \<and>
   (dynamic sc \<and> ref_cnt sc = 0 \<and> bit (live_mask sc) (sc_type_index SC_TYPE_STAMP) \<and>
    counters sc SC_TYPE_STAMP = sint (tv_sec now) - sint (lifetime opts) - 1 \<longrightarrow>
      sint (dropped_counters (final_st (stats_publish_and_prune_counters opts [sc] now))) = 1 \<and>
      registry_after (stats_publish_and_prune_counters opts [sc] now) = [] \<and>
      notice (stats_publish_and_prune_counters opts [sc] now) =
        Some (1, counters sc SC_TYPE_STAMP))"
proof (intro conjI impI)
  note fields = publish_and_prune_fields [of opts registry now]
  show "dropped_counters (final_st (stats_publish_and_prune_counters opts registry now)) =
     word_of_nat (length (expired_clusters opts now registry))"
    using fields by simp
  show "registry_after (stats_publish_and_prune_counters opts registry now) =
     filter (\<lambda>sc. \<not> stats_counter_is_expired opts sc (sint (tv_sec now))) registry"
    using fields by simp
  {
    assume "length (expired_clusters opts now registry) < 2 ^ 31"
    then show "sint (dropped_counters (final_st (stats_publish_and_prune_counters opts registry now))) =
        int (length (expired_clusters opts now registry))"
      using fields by (simp add: sint_gint_of_nat)
  }
  {
    assume nz: "\<forall>sc \<in> set (expired_clusters opts now registry). counters sc SC_TYPE_STAMP \<noteq> 0"
    then have "\<forall>t \<in> set (map (\<lambda>sc. counters sc SC_TYPE_STAMP) (expired_clusters opts now registry)).
                 t \<noteq> 0"
      by simp
    from fold_oldest_from_zero [OF this]
    show "oldest_counter (final_st (stats_publish_and_prune_counters opts registry now)) =
        (if expired_clusters opts now registry = [] then 0
         else Min ((\<lambda>sc. counters sc SC_TYPE_STAMP) ` set (expired_clusters opts now registry)))"
      using fields by simp
  }
  {
    assume a: "dynamic sc \<and> ref_cnt sc = 0 \<and> bit (live_mask sc) (sc_type_index SC_TYPE_STAMP) \<and>
      counters sc SC_TYPE_STAMP = sint (tv_sec now) - sint (lifetime opts) - 1"
    then have e: "stats_counter_is_expired opts sc (sint (tv_sec now))"
      using stamp_mask_iff [of "live_mask sc"] by (simp add: stats_counter_is_expired_def)
    then have ex: "expired_clusters opts now [sc] = [sc]"
      by (simp add: expired_clusters_def)
    note one = publish_and_prune_fields [of opts "[sc]" now]
    have d: "dropped_counters (final_st (stats_publish_and_prune_counters opts [sc] now)) = 1"
      using one by (simp add: ex)
    then show "sint (dropped_counters (final_st (stats_publish_and_prune_counters opts [sc] now))) = 1"
      by simp
    show "registry_after (stats_publish_and_prune_counters opts [sc] now) = []"
      using one e by simp
    have o: "oldest_counter (final_st (stats_publish_and_prune_counters opts [sc] now)) =
             counters sc SC_TYPE_STAMP"
      using one by (simp add: ex)
    have "notice (stats_publish_and_prune_counters opts [sc] now) =
            (if 0 <s dropped_counters (final_st (stats_publish_and_prune_counters opts [sc] now))
             then Some (dropped_counters (final_st (stats_publish_and_prune_counters opts [sc] now)),
                        oldest_counter (final_st (stats_publish_and_prune_counters opts [sc] now)))
             else None)"
      by (simp add: stats_publish_and_prune_counters_def Let_def split: prod.splits)
    then show "notice (stats_publish_and_prune_counters opts [sc] now) =
        Some (1, counters sc SC_TYPE_STAMP)"
      by (simp add: d o word_sless_alt)
  }
qed

lemma stamped_cluster_fields:
  "counters (stamped_cluster tstamp refs dyn) SC_TYPE_STAMP = tstamp"
  "ref_cnt (stamped_cluster tstamp refs dyn) = refs"
  "live_mask (stamped_cluster tstamp refs dyn) = 16"
  "dynamic (stamped_cluster tstamp refs dyn) = dyn"
  by (simp_all add: stamped_cluster_def)

lemma stamped_cluster_expired:
  "stats_counter_is_expired opts (stamped_cluster tstamp refs dyn) now \<longleftrightarrow>
     dyn \<and> \<not> 0 < refs \<and> tstamp \<le> now - sint (lifetime opts)"
  by (simp add: stats_counter_is_expired_def stamped_cluster_fields)

text \<open>
  Claim C5 as stated fails when an expired cluster has the timestamp 0: with lifetime 600
  at time 1000, two expired clusters with the timestamps 0 and 100, visited in this
  order, leave \<open>oldest_counter = 100\<close>, and the least of the two timestamps is 0.
\<close>

theorem oldest_after_zero_timestamp_counterexample:
  "expired_clusters \<lparr>level = 0, log_freq = 0, lifetime = 600\<rparr> \<lparr>tv_sec = 1000, tv_usec = 0\<rparr>
     [stamped_cluster 0 0 True, stamped_cluster 100 0 True] =
     [stamped_cluster 0 0 True, stamped_cluster 100 0 True] \<and>
   counters (stamped_cluster 0 0 True) SC_TYPE_STAMP = 0 \<and>
   counters (stamped_cluster 100 0 True) SC_TYPE_STAMP = 100 \<and>
   oldest_counter (final_st (stats_publish_and_prune_counters
     \<lparr>level = 0, log_freq = 0, lifetime = 600\<rparr>
     [stamped_cluster 0 0 True, stamped_cluster 100 0 True]
     \<lparr>tv_sec = 1000, tv_usec = 0\<rparr>)) = 100 \<and>
   oldest_counter (final_st (stats_publish_and_prune_counters
     \<lparr>level = 0, log_freq = 0, lifetime = 600\<rparr>
     [stamped_cluster 0 0 True, stamped_cluster 100 0 True]
     \<lparr>tv_sec = 1000, tv_usec = 0\<rparr>)) \<noteq>
     min (counters (stamped_cluster 0 0 True) SC_TYPE_STAMP)
         (counters (stamped_cluster 100 0 True) SC_TYPE_STAMP)"
  by (simp add: expired_clusters_def stamped_cluster_expired stamped_cluster_fields
      stats_publish_and_prune_counters_def stats_format_and_prune_cluster_def
      stats_prune_counter_def stats_log_format_cluster_def Let_def)

text \<open>
  Claim C5, amended, with lifetime 600 at time 1000: of three clusters with the
  timestamps 399, 50 and 7, the third one referenced, two are dropped, the oldest
  timestamp is 50 and the third cluster stays; the cluster with timestamp
  \<open>399 = 1000 - 600 - 1\<close> alone gives one dropped cluster.
\<close>

theorem maintenance_pass_aggregates_witness:
  "length (expired_clusters \<lparr>level = 0, log_freq = 600, lifetime = 600\<rparr>
             \<lparr>tv_sec = 1000, tv_usec = 0\<rparr>
             [stamped_cluster 399 0 True, stamped_cluster 50 0 True, stamped_cluster 7 1 True]) = 2 \<and>
   expired_clusters \<lparr>level = 0, log_freq = 600, lifetime = 600\<rparr>
     \<lparr>tv_sec = 1000, tv_usec = 0\<rparr>
     [stamped_cluster 399 0 True, stamped_cluster 50 0 True, stamped_cluster 7 1 True] =
     [stamped_cluster 399 0 True, stamped_cluster 50 0 True] \<and>
   counters (stamped_cluster 399 0 True) SC_TYPE_STAMP \<noteq> 0 \<and>
   counters (stamped_cluster 50 0 True) SC_TYPE_STAMP \<noteq> 0 \<and>
   sint (dropped_counters (final_st (stats_publish_and_prune_counters
     \<lparr>level = 0, log_freq = 600, lifetime = 600\<rparr>
     [stamped_cluster 399 0 True, stamped_cluster 50 0 True, stamped_cluster 7 1 True]
     \<lparr>tv_sec = 1000, tv_usec = 0\<rparr>))) = 2 \<and>
   oldest_counter (final_st (stats_publish_and_prune_counters
     \<lparr>level = 0, log_freq = 600, lifetime = 600\<rparr>
     [stamped_cluster 399 0 True, stamped_cluster 50 0 True, stamped_cluster 7 1 True]
     \<lparr>tv_sec = 1000, tv_usec = 0\<rparr>)) = 50 \<and>
   registry_after (stats_publish_and_prune_counters
     \<lparr>level = 0, log_freq = 600, lifetime = 600\<rparr>
     [stamped_cluster 399 0 True, stamped_cluster 50 0 True, stamped_cluster 7 1 True]
     \<lparr>tv_sec = 1000, tv_usec = 0\<rparr>) = [stamped_cluster 7 1 True] \<and>
   sint (dropped_counters (final_st (stats_publish_and_prune_counters
     \<lparr>level = 0, log_freq = 600, lifetime = 600\<rparr> [stamped_cluster 399 0 True]
     \<lparr>tv_sec = 1000, tv_usec = 0\<rparr>))) = 1"
proof -
  have e: "expired_clusters \<lparr>level = 0, log_freq = 600, lifetime = 600\<rparr>
             \<lparr>tv_sec = 1000, tv_usec = 0\<rparr>
             [stamped_cluster 399 0 True, stamped_cluster 50 0 True, stamped_cluster 7 1 True] =
           [stamped_cluster 399 0 True, stamped_cluster 50 0 True]"
    by (simp add: expired_clusters_def stamped_cluster_expired)
  show ?thesis
    using maintenance_pass_aggregates [where opts = "\<lparr>level = 0, log_freq = 600, lifetime = 600\<rparr>"
      and now = "\<lparr>tv_sec = 1000, tv_usec = 0\<rparr>"
      and registry = "[stamped_cluster 399 0 True, stamped_cluster 50 0 True,
                       stamped_cluster 7 1 True]"
      and sc = "stamped_cluster 399 0 True"]
    unfolding e by (simp add: stamped_cluster_expired stamped_cluster_fields)
qed

text \<open>
  Claim C4 with lifetime 600 at time 1000: a static cluster, a referenced cluster and a
  cluster without a live timestamp are kept; timestamp 400, at the boundary, is expired
  and timestamp 401 is not.
\<close>

theorem is_expired_cases_witness:
  "(\<not> dynamic (stamped_cluster 1 0 False) \<and>
    \<not> stats_counter_is_expired \<lparr>level = 0, log_freq = 600, lifetime = 600\<rparr>
        (stamped_cluster 1 0 False) 1000) \<and>
   (0 < ref_cnt (stamped_cluster 399 1 True) \<and>
    \<not> stats_counter_is_expired \<lparr>level = 0, log_freq = 600, lifetime = 600\<rparr>
        (stamped_cluster 399 1 True) 1000) \<and>
   (\<not> bit (live_mask ((stamped_cluster 1 0 True)\<lparr>live_mask := 3\<rparr>))
          (sc_type_index SC_TYPE_STAMP) \<and>
    \<not> stats_counter_is_expired \<lparr>level = 0, log_freq = 600, lifetime = 600\<rparr>
        ((stamped_cluster 1 0 True)\<lparr>live_mask := 3\<rparr>) 1000) \<and>
   (bit (live_mask (stamped_cluster 400 0 True)) (sc_type_index SC_TYPE_STAMP) \<and>
    counters (stamped_cluster 400 0 True) SC_TYPE_STAMP =
      1000 - sint (lifetime \<lparr>level = 0, log_freq = 600, lifetime = 600\<rparr>) \<and>
    stats_counter_is_expired \<lparr>level = 0, log_freq = 600, lifetime = 600\<rparr>
        (stamped_cluster 400 0 True) 1000) \<and>
   (\<not> counters (stamped_cluster 401 0 True) SC_TYPE_STAMP \<le>
        1000 - sint (lifetime \<lparr>level = 0, log_freq = 600, lifetime = 600\<rparr>) \<and>
    \<not> stats_counter_is_expired \<lparr>level = 0, log_freq = 600, lifetime = 600\<rparr>
        (stamped_cluster 401 0 True) 1000)"
  using is_expired_cases [where opts = "\<lparr>level = 0, log_freq = 600, lifetime = 600\<rparr>" and now = 1000
          and sc = "stamped_cluster 1 0 False"]
        is_expired_cases [where opts = "\<lparr>level = 0, log_freq = 600, lifetime = 600\<rparr>" and now = 1000
          and sc = "stamped_cluster 399 1 True"]
        is_expired_cases [where opts = "\<lparr>level = 0, log_freq = 600, lifetime = 600\<rparr>" and now = 1000
          and sc = "(stamped_cluster 1 0 True)\<lparr>live_mask := 3\<rparr>"]
        is_expired_cases [where opts = "\<lparr>level = 0, log_freq = 600, lifetime = 600\<rparr>" and now = 1000
          and sc = "stamped_cluster 400 0 True"]
        is_expired_cases [where opts = "\<lparr>level = 0, log_freq = 600, lifetime = 600\<rparr>" and now = 1000
          and sc = "stamped_cluster 401 0 True"]
  by (simp add: stamped_cluster_fields)

lemma cookie_stats_timer_reinit:
  "cookie (stats_timer_reinit opts iv_now timer) = stats_timer_freq opts"
  by (simp add: stats_timer_reinit_def stats_timer_rearm_def stats_timer_init_def Let_def)

lemma sint_c_div_2:
  fixes l :: gint
  assumes "\<not> l \<le>s 1"
  shows "sint (c_div l 2) = sint l div 2" and "sint l sdiv 2 = sint l div 2" and "1 \<le> sint l div 2"
proof -
  have l: "2 \<le> sint l" using assms by (simp add: word_sle_eq)
  then show sd: "sint l sdiv 2 = sint l div 2"
    by (simp add: signed_divide_int_def sgn_if)
  show ge: "1 \<le> sint l div 2" using l by simp
  have "sint l div 2 < 2 ^ 31" using sint_lt [of l] by simp
  then have "signed_take_bit 31 (sint l div 2) = sint l div 2"
    using ge by (intro signed_take_bit_int_eq_self) simp_all
  then show "sint (c_div l 2) = sint l div 2"
    by (simp add: c_div_def sint_sbintrunc' sd)
qed

lemma max_1_half:
  fixes k :: int
  assumes "k \<le> 1"
  shows "max 1 (k div 2) = 1" and "max 1 (k sdiv 2) = 1"
proof -
  show "max 1 (k div 2) = 1" using assms by simp
  have "k sdiv 2 \<le> 0 \<or> k sdiv 2 = k div 2"
    by (cases "0 \<le> k") (simp_all add: signed_divide_int_def sgn_if)
  then show "max 1 (k sdiv 2) = 1" using assms by auto
qed

text \<open>
  Claim C7: the interval that \<open>stats_timer_reinit\<close> stores in the timer is the
  interval of the spec, \<open>log_freq\<close> when it is nonzero and \<open>max(1, lifetime / 2)\<close>
  otherwise, whether \<open>/\<close> rounds down or towards zero: the code's
  \<open>lifetime <= 1 ? 1 : lifetime / 2\<close> equals \<open>max(1, lifetime / 2)\<close>. With
  \<open>log_freq = 0\<close> and \<open>lifetime = 10\<close> the interval is 5 seconds, and the timer is armed
  5000 milliseconds ahead.
\<close>

theorem timer_interval_refines_spec:
  "sint (cookie (stats_timer_reinit opts iv_now timer)) =
     spec_timer_interval (div) (sint (log_freq opts)) (sint (lifetime opts)) \<and>
   sint (cookie (stats_timer_reinit opts iv_now timer)) =
     spec_timer_interval (sdiv) (sint (log_freq opts)) (sint (lifetime opts)) \<and>
   stats_timer_freq opts =
     (if log_freq opts \<noteq> 0 then log_freq opts
      else if lifetime opts \<le>s 1 then 1 else c_div (lifetime opts) 2) \<and>
   (log_freq opts = 0 \<and> lifetime opts = 10 \<longrightarrow>
      cookie (stats_timer_reinit opts iv_now timer) = 5 \<and>
      registered (stats_timer_reinit opts iv_now timer) \<and>
      expires (stats_timer_reinit opts iv_now timer) = iv_now + 5000)"
proof (intro conjI impI)
  show f: "stats_timer_freq opts =
     (if log_freq opts \<noteq> 0 then log_freq opts
      else if lifetime opts \<le>s 1 then 1 else c_div (lifetime opts) 2)"
    by (simp add: stats_timer_freq_def)
  have nz: "sint (log_freq opts) \<noteq> 0 \<longleftrightarrow> log_freq opts \<noteq> 0"
    by (simp only: signed_eq_0_iff)
  show "sint (cookie (stats_timer_reinit opts iv_now timer)) =
     spec_timer_interval (div) (sint (log_freq opts)) (sint (lifetime opts))"
  proof (cases "lifetime opts \<le>s 1")
    case True
    then have "sint (lifetime opts) \<le> 1" by (simp add: word_sle_eq)
    from max_1_half(1) [OF this] True show ?thesis
      by (simp add: cookie_stats_timer_reinit f spec_timer_interval_def nz)
  next
    case False
    from sint_c_div_2 [OF False] False show ?thesis
      by (simp add: cookie_stats_timer_reinit f spec_timer_interval_def nz max_def)
  qed
  show "sint (cookie (stats_timer_reinit opts iv_now timer)) =
     spec_timer_interval (sdiv) (sint (log_freq opts)) (sint (lifetime opts))"
  proof (cases "lifetime opts \<le>s 1")
    case True
    then have "sint (lifetime opts) \<le> 1" by (simp add: word_sle_eq)
    from max_1_half(2) [OF this] True show ?thesis
      by (simp add: cookie_stats_timer_reinit f spec_timer_interval_def nz)
  next
    case False
    from sint_c_div_2 [OF False] False show ?thesis
      by (simp add: cookie_stats_timer_reinit f spec_timer_interval_def nz max_def)
  qed
  {
    assume a: "log_freq opts = 0 \<and> lifetime opts = 10"
    have c: "c_div (10 :: gint) 2 = 5" by (simp add: c_div_def)
    show "cookie (stats_timer_reinit opts iv_now timer) = 5"
      using a by (simp add: cookie_stats_timer_reinit f c word_sle_eq)
    have five: "stats_timer_freq opts = 5" using a by (simp add: f c word_sle_eq)
    show "registered (stats_timer_reinit opts iv_now timer)"
      by (simp add: stats_timer_reinit_def stats_timer_rearm_def stats_timer_init_def five
          word_sless_alt)
    show "expires (stats_timer_reinit opts iv_now timer) = iv_now + 5000"
      by (simp add: stats_timer_reinit_def stats_timer_rearm_def stats_timer_init_def five
          word_sless_alt)
  }
qed

text \<open>
  Claim C7 at \<open>log_freq = 0\<close>, \<open>lifetime = 10\<close>, on the timer of a fresh process.
\<close>

theorem timer_interval_refines_spec_witness:
  "log_freq \<lparr>level = 0, log_freq = 0, lifetime = 10\<rparr> = 0 \<and>
   lifetime \<lparr>level = 0, log_freq = 0, lifetime = 10\<rparr> = 10 \<and>
   cookie (stats_timer_reinit \<lparr>level = 0, log_freq = 0, lifetime = 10\<rparr> 0
             (stats_timer stats_globals_initial)) = 5 \<and>
   spec_timer_interval (div) 0 10 = 5"
  using timer_interval_refines_spec [of "\<lparr>level = 0, log_freq = 0, lifetime = 10\<rparr>" 0
          "stats_timer stats_globals_initial"]
  by (simp add: spec_timer_interval_def)

text \<open>
  Claim C10: while no options object is installed (as in the initial state),
  \<open>stats_check_level level\<close> holds exactly for \<open>level = 0\<close>; once \<open>stats_reinit\<close> has
  installed one, it holds exactly when the installed \<open>level\<close> is at least \<open>level\<close>.
\<close>

theorem check_level_cases:
  "(stats_options_ptr g = None \<longrightarrow> stats_check_level g lvl = (lvl = 0)) \<and>
   stats_check_level stats_globals_initial lvl = (lvl = 0) \<and>
   (stats_options_ptr g = Some opts \<longrightarrow>
      stats_check_level g lvl = (sint lvl \<le> sint (level opts))) \<and>
   stats_options_ptr (stats_reinit opts iv_now g) = Some opts \<and>
   stats_check_level (stats_reinit opts iv_now g) lvl = (sint lvl \<le> sint (level opts))"
  by (simp add: stats_check_level_def stats_globals_initial_def stats_reinit_def word_sle_eq)

text \<open>
  Claim C10 before any \<open>stats_reinit\<close>, at the levels 0, 1 and \<open>-1\<close>, and after
  \<open>stats_reinit\<close> with level 2, at the levels 2 and 3.
\<close>

theorem check_level_cases_witness:
  "stats_options_ptr stats_globals_initial = None \<and>
   stats_check_level stats_globals_initial 0 \<and>
   \<not> stats_check_level stats_globals_initial 1 \<and>
   \<not> stats_check_level stats_globals_initial (- 1) \<and>
   stats_options_ptr (stats_reinit \<lparr>level = 2, log_freq = 600, lifetime = 600\<rparr> 0 stats_globals_initial) =
     Some \<lparr>level = 2, log_freq = 600, lifetime = 600\<rparr> \<and>
   stats_check_level (stats_reinit \<lparr>level = 2, log_freq = 600, lifetime = 600\<rparr> 0 stats_globals_initial) 2 \<and>
   \<not> stats_check_level (stats_reinit \<lparr>level = 2, log_freq = 600, lifetime = 600\<rparr> 0 stats_globals_initial) 3"
  using check_level_cases [of stats_globals_initial 0]
        check_level_cases [of stats_globals_initial 1]
        check_level_cases [of stats_globals_initial "- 1"]
        check_level_cases [of stats_globals_initial 2 "\<lparr>level = 2, log_freq = 600, lifetime = 600\<rparr>" 0]
        check_level_cases [of stats_globals_initial 3 "\<lparr>level = 2, log_freq = 600, lifetime = 600\<rparr>" 0]
  by (simp add: stats_globals_initial_def)

end
